theory Spec2Isabelle
  imports Main "HOL-Library.Word"
begin

unbundle bit_operations_syntax

section \<open>The tape machine of tasm.c\<close>

text \<open>
  A shallow embedding of \<^verbatim>\<open>tasm.c\<close>: the tape, the assembler
  (\<^verbatim>\<open>load_deref_instructions\<close>, \<^verbatim>\<open>load_instruction\<close>,
  \<^verbatim>\<open>assemble_tasm\<close>) and the virtual machine (\<^verbatim>\<open>output\<close>,
  \<^verbatim>\<open>run\<close>).

  \<^verbatim>\<open>DWORD\<close> is \<^verbatim>\<open>unsigned long\<close>; the source documents it as
  "4 bytes of data", so it is a 32-bit word here. \<^verbatim>\<open>BYTE\<close> is
  \<^verbatim>\<open>unsigned char\<close>.
\<close>

type_synonym DWORD = "32 word"
type_synonym BYTE = "8 word"

subsection \<open>Memory addresses\<close>

text \<open>The \<^verbatim>\<open>#define\<close>s of the source (their leading underscore dropped).\<close>

abbreviation (input) MEM :: DWORD where "MEM \<equiv> 0"
abbreviation (input) MEM_END :: DWORD where "MEM_END \<equiv> 99999"
abbreviation (input) STACK_END :: DWORD where "STACK_END \<equiv> 100000"
abbreviation (input) STACK :: DWORD where "STACK \<equiv> 100999"
abbreviation (input) OUT :: DWORD where "OUT \<equiv> 101000"
abbreviation (input) OUT_END :: DWORD where "OUT_END \<equiv> 200999"
abbreviation (input) MAIN :: DWORD where "MAIN \<equiv> 201000"
abbreviation (input) END :: DWORD where "END \<equiv> 300999"

abbreviation (input) TEMP :: DWORD where "TEMP \<equiv> 0"
abbreviation (input) ZF :: DWORD where "ZF \<equiv> 1"
abbreviation (input) CF :: DWORD where "CF \<equiv> 2"
abbreviation (input) DISP :: DWORD where "DISP \<equiv> 3"
abbreviation (input) STK :: DWORD where "STK \<equiv> 4"
abbreviation (input) SAFE_MEM :: DWORD where "SAFE_MEM \<equiv> 5"

abbreviation (input) STACK_SIZE :: DWORD where "STACK_SIZE \<equiv> 1000"

subsection \<open>Instruction set, tape block, tape pointer\<close>

datatype INSTRUCTION =
    I_NONE | I_HALT
  | I_JUMP | I_CMP | I_JE | I_JNE | I_JG | I_JGE | I_JL | I_JLE
  | I_READ | I_WRITE | I_CALL | I_RET
  | I_AND | I_OR | I_XOR | I_NOT | I_LSHIFT | I_RSHIFT
  | I_ADD | I_SUB | I_MUL | I_DIV
  | I_OUT

record BLOCK =
  ins :: INSTRUCTION
  data :: DWORD
  dtype :: BYTE

record TAPE_PTR =
  pos :: DWORD
  data :: DWORD
  dtype :: BYTE

text \<open>
  The globals \<^verbatim>\<open>tape\<close> and \<^verbatim>\<open>_ptr\<close>, with the bytes written to
  standard output and the local flag \<^verbatim>\<open>is_halted\<close> of \<^verbatim>\<open>run\<close>.
  The array \<^verbatim>\<open>tape\<close> has 301000 blocks: an index is inside it iff it is at
  most \<open>END\<close>. The model's tape is a function on all of \<open>DWORD\<close>; every access at an
  index the source does not bound is checked, and an access outside the array is the
  result \<open>Undefined\<close>.
\<close>

record machine =
  tape :: "DWORD \<Rightarrow> BLOCK"
  ptr :: TAPE_PTR
  stdout :: "BYTE list"
  is_halted :: bool

datatype fault =
    MemoryOverflow int        \<comment> \<open>assembler: instruction memory limit exceeded [line]\<close>
  | DuplicateLabel int        \<comment> \<open>assembler: duplicate label definitions [line]\<close>
  | UndefinedLabel int        \<comment> \<open>assembler: undefined label [line]\<close>
  | MissingMain               \<comment> \<open>assembler: could not find "main"\<close>
  | OutOfBounds DWORD         \<comment> \<open>run: memory out of bounds, address does not exist\<close>
  | StackOverflow             \<comment> \<open>run: stack overflow occurred\<close>
  | Undefined                 \<comment> \<open>undefined behaviour of the C program\<close>

text \<open>A static array is zero-initialised: every block is \<open>I_NONE\<close>, 0, 0.\<close>

definition zero_block :: BLOCK where
  "zero_block = \<lparr>ins = I_NONE, data = 0, dtype = 0\<rparr>"

definition init_machine :: machine where
  "init_machine =
     \<lparr>tape = (\<lambda>_. zero_block), ptr = \<lparr>pos = 0, data = 0, dtype = 0\<rparr>,
      stdout = [], is_halted = False\<rparr>"

subsection \<open>Reading and writing the globals\<close>

definition rd_data :: "DWORD \<Rightarrow> machine \<Rightarrow> DWORD" where
  "rd_data i m = BLOCK.data (tape m i)"

definition wr_ins :: "DWORD \<Rightarrow> INSTRUCTION \<Rightarrow> machine \<Rightarrow> machine" where
  "wr_ins i v m = m\<lparr>tape := (tape m)(i := (tape m i)\<lparr>ins := v\<rparr>)\<rparr>"

definition wr_data :: "DWORD \<Rightarrow> DWORD \<Rightarrow> machine \<Rightarrow> machine" where
  "wr_data i v m = m\<lparr>tape := (tape m)(i := (tape m i)\<lparr>BLOCK.data := v\<rparr>)\<rparr>"

definition wr_dtype :: "DWORD \<Rightarrow> BYTE \<Rightarrow> machine \<Rightarrow> machine" where
  "wr_dtype i v m = m\<lparr>tape := (tape m)(i := (tape m i)\<lparr>BLOCK.dtype := v\<rparr>)\<rparr>"

definition set_pos :: "DWORD \<Rightarrow> machine \<Rightarrow> machine" where
  "set_pos v m = m\<lparr>ptr := (ptr m)\<lparr>pos := v\<rparr>\<rparr>"

text \<open>\<^verbatim>\<open>_ptr.pos++\<close>\<close>

definition advance :: "machine \<Rightarrow> machine" where
  "advance m = set_pos (pos (ptr m) + 1) m"

subsection \<open>The assembler's statements\<close>

text \<open>
  \<^verbatim>\<open>tape[_ptr.pos].ins = v\<close>, \<^verbatim>\<open>tape[_ptr.pos].data = v\<close> and
  \<^verbatim>\<open>tape[_ptr.pos].dtype = v\<close>. The assembler checks \<^verbatim>\<open>_ptr.pos\<close>
  once a line only, so each store checks the index here.
\<close>

definition emit_ins :: "INSTRUCTION \<Rightarrow> machine \<Rightarrow> fault + machine" where
  "emit_ins v m = (if pos (ptr m) \<le> END then Inr (wr_ins (pos (ptr m)) v m) else Inl Undefined)"

definition emit_data :: "DWORD \<Rightarrow> machine \<Rightarrow> fault + machine" where
  "emit_data v m = (if pos (ptr m) \<le> END then Inr (wr_data (pos (ptr m)) v m) else Inl Undefined)"

definition emit_dtype :: "BYTE \<Rightarrow> machine \<Rightarrow> fault + machine" where
  "emit_dtype v m = (if pos (ptr m) \<le> END then Inr (wr_dtype (pos (ptr m)) v m) else Inl Undefined)"

definition next_pos :: "machine \<Rightarrow> fault + machine" where
  "next_pos m = Inr (advance m)"

text \<open>Statements in sequence; the first failure ends the sequence.\<close>

fun seq :: "('s \<Rightarrow> fault + 's) list \<Rightarrow> 's \<Rightarrow> fault + 's" where
  "seq [] s = Inr s"
| "seq (f # fs) s = (case f s of Inl e \<Rightarrow> Inl e | Inr s' \<Rightarrow> seq fs s')"

text \<open>\<^verbatim>\<open>if (c) f;\<close>\<close>

definition when_set :: "bool \<Rightarrow> ('s \<Rightarrow> fault + 's) \<Rightarrow> 's \<Rightarrow> fault + 's" where
  "when_set c f s = (if c then f s else Inr s)"

subsection \<open>load_deref_instructions\<close>

definition load_deref_instructions :: "DWORD \<Rightarrow> int \<Rightarrow> machine \<Rightarrow> fault + machine" where
  "load_deref_instructions addr overwrite_at =
     seq [emit_ins I_READ, emit_data addr, next_pos,
          emit_ins I_WRITE, (\<lambda>m. emit_data (pos (ptr m) + word_of_int overwrite_at) m), next_pos]"

subsection \<open>load_instruction\<close>

text \<open>
  The chain of \<^verbatim>\<open>strcmp\<close> tests, in the order of the source. A mnemonic that
  matches none of them emits nothing. The flags \<^verbatim>\<open>deref_1\<close> and
  \<^verbatim>\<open>deref_2\<close> are booleans.
\<close>

definition load_instruction ::
  "string \<Rightarrow> DWORD \<Rightarrow> DWORD \<Rightarrow> BYTE \<Rightarrow> bool \<Rightarrow> bool \<Rightarrow> machine \<Rightarrow> fault + machine" where
  "load_instruction mn a1 a2 data_type deref_1 deref_2 =
    (if mn = ''hlt'' then seq [emit_ins I_HALT, emit_data 0, next_pos]
     else if mn = ''out'' then seq [emit_ins I_OUT, emit_data 0, next_pos]
     else if mn = ''ret'' then seq [emit_ins I_RET, emit_data 0, next_pos]
     else if mn = ''not'' then
       seq [when_set deref_1 (load_deref_instructions a1 1),
            emit_ins I_NOT, emit_data a1, next_pos]
     else if mn = ''jmp'' then
       seq [when_set deref_1 (load_deref_instructions a1 1),
            emit_ins I_JUMP, emit_data a1, next_pos]
     else if mn = ''call'' then
       seq [when_set deref_1 (load_deref_instructions a1 1),
            emit_ins I_CALL, emit_data a1, next_pos]
     else if mn = ''je'' then
       seq [when_set deref_1 (load_deref_instructions a1 1),
            emit_ins I_JE, emit_data a1, next_pos]
     else if mn = ''jne'' then
       seq [when_set deref_1 (load_deref_instructions a1 1),
            emit_ins I_JNE, emit_data a1, next_pos]
     else if mn = ''jg'' then
       seq [when_set deref_1 (load_deref_instructions a1 1),
            emit_ins I_JG, emit_data a1, next_pos]
     else if mn = ''jge'' then
       seq [when_set deref_1 (load_deref_instructions a1 1),
            emit_ins I_JGE, emit_data a1, next_pos]
     else if mn = ''jl'' then
       seq [when_set deref_1 (load_deref_instructions a1 1),
            emit_ins I_JL, emit_data a1, next_pos]
     else if mn = ''jle'' then
       seq [when_set deref_1 (load_deref_instructions a1 1),
            emit_ins I_JLE, emit_data a1, next_pos]
     else if mn = ''cmp'' then
       seq [when_set deref_2 (load_deref_instructions a2 (if deref_1 then 3 else 1)),
            when_set deref_1 (load_deref_instructions a1 2),
            emit_ins I_READ, emit_data a2, next_pos,
            emit_ins I_CMP, emit_data a1, next_pos]
     else if mn = ''put'' then
       seq [when_set deref_2 (load_deref_instructions a2 (if deref_1 then 3 else 1)),
            when_set deref_1 (load_deref_instructions a1 3),
            emit_ins I_NONE, emit_data a2, emit_dtype data_type, next_pos,
            emit_ins I_READ, (\<lambda>m. emit_data (pos (ptr m) - 1) m), next_pos,
            emit_ins I_WRITE, emit_data a1, next_pos]
     else if mn = ''mov'' then
       seq [when_set deref_2 (load_deref_instructions a2 (if deref_1 then 3 else 1)),
            when_set deref_1 (load_deref_instructions a1 2),
            emit_ins I_READ, emit_data a2, next_pos,
            emit_ins I_WRITE, emit_data a1, next_pos]
     else if mn = ''and'' then
       seq [when_set deref_2 (load_deref_instructions a2 (if deref_1 then 3 else 1)),
            when_set deref_1 (load_deref_instructions a1 2),
            emit_ins I_READ, emit_data a2, next_pos,
            emit_ins I_AND, emit_data a1, next_pos]
     else if mn = ''or'' then
       seq [when_set deref_2 (load_deref_instructions a2 (if deref_1 then 3 else 1)),
            when_set deref_1 (load_deref_instructions a1 2),
            emit_ins I_READ, emit_data a2, next_pos,
            emit_ins I_OR, emit_data a1, next_pos]
     else if mn = ''xor'' then
       seq [when_set deref_2 (load_deref_instructions a2 (if deref_1 then 3 else 1)),
            when_set deref_1 (load_deref_instructions a1 2),
            emit_ins I_READ, emit_data a2, next_pos,
            emit_ins I_XOR, emit_data a1, next_pos]
     else if mn = ''lsh'' then
       seq [when_set deref_2 (load_deref_instructions a2 (if deref_1 then 3 else 1)),
            when_set deref_1 (load_deref_instructions a1 2),
            emit_ins I_READ, emit_data a2, next_pos,
            emit_ins I_LSHIFT, emit_data a1, next_pos]
     else if mn = ''rsh'' then
       seq [when_set deref_2 (load_deref_instructions a2 (if deref_1 then 3 else 1)),
            when_set deref_1 (load_deref_instructions a1 2),
            emit_ins I_READ, emit_data a2, next_pos,
            emit_ins I_RSHIFT, emit_data a1, next_pos]
     else if mn = ''add'' then
       seq [when_set deref_2 (load_deref_instructions a2 (if deref_1 then 3 else 1)),
            when_set deref_1 (load_deref_instructions a1 2),
            emit_ins I_READ, emit_data a2, next_pos,
            emit_ins I_ADD, emit_data a1, next_pos]
     else if mn = ''sub'' then
       seq [when_set deref_2 (load_deref_instructions a2 (if deref_1 then 3 else 1)),
            when_set deref_1 (load_deref_instructions a1 2),
            emit_ins I_READ, emit_data a2, next_pos,
            emit_ins I_SUB, emit_data a1, next_pos,
            next_pos]
     else if mn = ''mul'' then
       seq [when_set deref_2 (load_deref_instructions a2 (if deref_1 then 3 else 1)),
            when_set deref_1 (load_deref_instructions a1 2),
            emit_ins I_READ, emit_data a2, next_pos,
            emit_ins I_MUL, emit_data a1, next_pos]
     else if mn = ''div'' then
       seq [when_set deref_2 (load_deref_instructions a2 (if deref_1 then 3 else 1)),
            when_set deref_1 (load_deref_instructions a1 2),
            emit_ins I_READ, emit_data a2, next_pos,
            emit_ins I_DIV, emit_data a1, next_pos]
     else Inr)"

subsection \<open>The label map\<close>

text \<open>
  \<^verbatim>\<open>Pair *map[STACK_SIZE]\<close>: each bucket is a chain of pairs, newest first;
  \<^verbatim>\<open>map_get\<close> returns the value of the first pair with the key, or \<open>None\<close> for
  \<^verbatim>\<open>NULL\<close>.
  A plain \<^verbatim>\<open>char\<close> is signed on the x86 targets of the source, so a character
  converts to \<^verbatim>\<open>DWORD\<close> with sign extension.
\<close>

type_synonym pair_map = "DWORD \<Rightarrow> (string \<times> DWORD) list"

definition DWORD_of_char :: "char \<Rightarrow> DWORD" where
  "DWORD_of_char c = scast (of_char c :: BYTE)"

definition init_map :: pair_map where
  "init_map = (\<lambda>_. [])"

definition hash :: "string \<Rightarrow> DWORD" where
  "hash key = (foldl (\<lambda>h c. h * 31 + DWORD_of_char c) 0 key) mod STACK_SIZE"

fun chain_update :: "string \<Rightarrow> DWORD \<Rightarrow> (string \<times> DWORD) list \<Rightarrow> (string \<times> DWORD) list" where
  "chain_update key v [] = []"
| "chain_update key v ((k, w) # ps) =
     (if k = key then (k, v) # ps else (k, w) # chain_update key v ps)"

definition map_insert :: "pair_map \<Rightarrow> string \<Rightarrow> DWORD \<Rightarrow> pair_map" where
  "map_insert mp key v =
     (let index = hash key in
      if key \<in> fst ` set (mp index) then mp(index := chain_update key v (mp index))
      else mp(index := (key, v) # mp index))"

definition map_get :: "pair_map \<Rightarrow> string \<Rightarrow> DWORD option" where
  "map_get mp key = map_of (mp (hash key)) key"

subsection \<open>The C library functions the assembler calls\<close>

text \<open>
  A C string is a \<open>string\<close> with no NUL in it; \<open>cnth s i\<close> is \<^verbatim>\<open>s[i]\<close> in a
  zero-filled buffer that holds \<open>s\<close>.
\<close>

definition cnth :: "string \<Rightarrow> nat \<Rightarrow> char" where
  "cnth s i = (if i < length s then s ! i else CHR 0x00)"

definition c_str :: "string \<Rightarrow> string" where
  "c_str s = takeWhile (\<lambda>c. c \<noteq> CHR 0x00) s"

definition isspace :: "char \<Rightarrow> bool" where
  "isspace c = (let n = (of_char c :: nat) in n = 32 \<or> (9 \<le> n \<and> n \<le> 13))"

text \<open>
  \<^verbatim>\<open>strstr(line, "//")\<close> and the store of a NUL there: the line up to its first
  \<^verbatim>\<open>//\<close>.
\<close>

fun strip_comment :: "string \<Rightarrow> string" where
  "strip_comment (a # b # cs) =
     (if a = CHR ''/'' \<and> b = CHR ''/'' then [] else a # strip_comment (b # cs))"
| "strip_comment cs = cs"

text \<open>
  \<^verbatim>\<open>sscanf(line, "%s %s %[^\n]", ins, first, second)\<close>: two words, each after
  any white space, then after any white space the rest of the line up to a newline. A
  conversion that reads nothing ends the call and leaves the later buffers empty. The
  buffers hold 100, 100 and 200 bytes; a longer token overflows its buffer.
\<close>

definition sscanf_line :: "string \<Rightarrow> fault + (string \<times> string \<times> string)" where
  "sscanf_line line =
     (let s1 = dropWhile isspace line;
          mn = takeWhile (\<lambda>c. \<not> isspace c) s1;
          s2 = dropWhile isspace (dropWhile (\<lambda>c. \<not> isspace c) s1);
          first = takeWhile (\<lambda>c. \<not> isspace c) s2;
          s3 = dropWhile isspace (dropWhile (\<lambda>c. \<not> isspace c) s2);
          second = takeWhile (\<lambda>c. c \<noteq> CHR 0x0A) s3
      in if length mn \<ge> 100 \<or> length first \<ge> 100 \<or> length second \<ge> 200 then Inl Undefined
         else if mn = [] then Inr ([], [], [])
         else if first = [] then Inr (mn, [], [])
         else Inr (mn, first, second))"

text \<open>
  \<^verbatim>\<open>strtoul(nptr, NULL, base)\<close> for the bases 0 and 16: white space, an optional
  sign, an optional \<^verbatim>\<open>0x\<close>, then the digits of the base. A value that does not
  fit is \<^verbatim>\<open>ULONG_MAX\<close>; a minus sign negates the value as an unsigned number.
\<close>

definition digit_val :: "char \<Rightarrow> nat" where
  "digit_val c =
     (let n = (of_char c :: nat) in
      if 48 \<le> n \<and> n \<le> 57 then n - 48
      else if 97 \<le> n \<and> n \<le> 122 then n - 87
      else if 65 \<le> n \<and> n \<le> 90 then n - 55
      else 36)"

definition strtoul :: "string \<Rightarrow> nat \<Rightarrow> DWORD" where
  "strtoul nptr base =
     (let s0 = dropWhile isspace nptr;
          neg = (cnth s0 0 = CHR ''-'');
          s1 = (if cnth s0 0 = CHR ''-'' \<or> cnth s0 0 = CHR ''+'' then drop 1 s0 else s0);
          has_0x = (cnth s1 0 = CHR ''0'' \<and> (cnth s1 1 = CHR ''x'' \<or> cnth s1 1 = CHR ''X''));
          b = (if base = 0 then (if has_0x then 16 else if cnth s1 0 = CHR ''0'' then 8 else 10)
               else base);
          s2 = (if (base = 0 \<or> base = 16) \<and> has_0x then drop 2 s1 else s1);
          ds = takeWhile (\<lambda>c. digit_val c < b) s2;
          v = foldl (\<lambda>acc c. acc * b + digit_val c) 0 ds
      in if v > 4294967295 then 4294967295
         else if neg then - of_nat v else of_nat v)"

text \<open>
  The file as \<^verbatim>\<open>fgets(line, sizeof(line), tasm_file)\<close> reads it: each line ends
  after a newline, after 255 characters or at the end of the file. \<open>read_lines n acc\<close>
  has room for \<open>n\<close> more characters in a line that holds \<open>rev acc\<close> so far.
\<close>

fun read_lines :: "nat \<Rightarrow> string \<Rightarrow> string \<Rightarrow> string list" where
  "read_lines n acc [] = (if acc = [] then [] else [rev acc])"
| "read_lines n acc (c # cs) =
     (if c = CHR 0x0A \<or> n = 1 then rev (c # acc) # read_lines 255 [] cs
      else read_lines (n - 1) (c # acc) cs)"

subsection \<open>assemble_tasm\<close>

record asm_state =
  mach :: machine
  label_to_address_map :: pair_map
  line_num :: int

text \<open>
  The first operand: \<^verbatim>\<open>a1\<close> and \<^verbatim>\<open>deref_1\<close>. The locals
  \<^verbatim>\<open>a1\<close> and \<^verbatim>\<open>a2\<close> have no initialiser; \<open>a1_indet\<close> and
  \<open>a2_indet\<close> are the values they hold where the source does not assign them.
\<close>

definition first_operand :: "pair_map \<Rightarrow> int \<Rightarrow> string \<Rightarrow> DWORD \<Rightarrow> fault + (DWORD \<times> bool)" where
  "first_operand mp ln first a1_indet =
     (let first_len = length first in
      if cnth first 0 = CHR ''0'' \<and> cnth first 1 = CHR ''x'' then Inr (strtoul first 16, False)
      else if cnth first 0 = CHR ''['' \<and> cnth first 1 = CHR ''0'' \<and> cnth first 2 = CHR ''x''
              \<and> cnth first (first_len - 1) = CHR '']''
        then Inr (strtoul (take (first_len - 2) (drop 1 first)) 16, True)
      else if first_len > 0 then
        (case map_get mp first of
           None \<Rightarrow> Inl (UndefinedLabel ln)
         | Some a \<Rightarrow> Inr (a, False))
      else Inr (a1_indet, False))"

text \<open>
  The loop over the characters of a string operand: \<^verbatim>\<open>second[1]\<close> to
  \<^verbatim>\<open>second[len - 2]\<close>, with \<^verbatim>\<open>data_type = 1\<close> and
  \<^verbatim>\<open>a1++\<close> after each.
\<close>

fun string_loop :: "string \<Rightarrow> string \<Rightarrow> DWORD \<Rightarrow> bool \<Rightarrow> bool \<Rightarrow> machine \<Rightarrow> fault + machine" where
  "string_loop mn [] a1 deref_1 deref_2 m = Inr m"
| "string_loop mn (c # cs) a1 deref_1 deref_2 m =
     (case load_instruction mn a1 (DWORD_of_char c) 1 deref_1 deref_2 m of
        Inl e \<Rightarrow> Inl e
      | Inr m' \<Rightarrow> string_loop mn cs (a1 + 1) deref_1 deref_2 m')"

text \<open>The second operand and the calls of \<^verbatim>\<open>load_instruction\<close>.\<close>

definition load_operands :: "string \<Rightarrow> DWORD \<Rightarrow> bool \<Rightarrow> string \<Rightarrow> DWORD \<Rightarrow> machine \<Rightarrow> fault + machine" where
  "load_operands mn a1 deref_1 second a2_indet m =
     (let len = length second in
      if cnth second 0 = CHR 0x22 then
        string_loop mn (take (len - 2) (drop 1 second)) a1 deref_1 False m
      else if cnth second 0 = CHR ''['' \<and> cnth second (len - 1) = CHR '']'' then
        load_instruction mn a1 (strtoul (take (len - 2) (drop 1 second)) 0) 0 deref_1 True m
      else if len > 0 then
        load_instruction mn a1 (strtoul second 0) 0 deref_1 False m
      else load_instruction mn a1 a2_indet 0 deref_1 False m)"

text \<open>The body of the loop over the lines.\<close>

definition assemble_line :: "(int \<Rightarrow> DWORD \<times> DWORD) \<Rightarrow> string \<Rightarrow> asm_state \<Rightarrow> fault + asm_state" where
  "assemble_line indet line st0 =
     (let st = st0\<lparr>line_num := line_num st0 + 1\<rparr> in
      case sscanf_line (strip_comment line) of
        Inl e \<Rightarrow> Inl e
      | Inr (mn, first, second) \<Rightarrow>
          if length mn = 0 then Inr st
          else if pos (ptr (mach st)) > END then Inl (MemoryOverflow (line_num st))
          else if cnth mn (length mn - 1) = CHR '':'' then
            (let label = take (length mn - 1) mn in
             if map_get (label_to_address_map st) label \<noteq> None
             then Inl (DuplicateLabel (line_num st))
             else Inr (st\<lparr>label_to_address_map :=
                          map_insert (label_to_address_map st) label (pos (ptr (mach st)))\<rparr>))
          else
            (case first_operand (label_to_address_map st) (line_num st) first
                    (fst (indet (line_num st))) of
               Inl e \<Rightarrow> Inl e
             | Inr (a1, deref_1) \<Rightarrow>
                 (case load_operands mn a1 deref_1 second (snd (indet (line_num st))) (mach st) of
                    Inl e \<Rightarrow> Inl e
                  | Inr m' \<Rightarrow> Inr (st\<lparr>mach := m'\<rparr>))))"

fun assemble_lines :: "(int \<Rightarrow> DWORD \<times> DWORD) \<Rightarrow> string list \<Rightarrow> asm_state \<Rightarrow> fault + asm_state" where
  "assemble_lines indet [] st = Inr st"
| "assemble_lines indet (line # lines) st =
     (case assemble_line indet (c_str line) st of
        Inl e \<Rightarrow> Inl e
      | Inr st' \<Rightarrow> assemble_lines indet lines st')"

text \<open>
  \<^verbatim>\<open>assemble_tasm\<close> on the contents of the file, from the tape \<open>m\<close>: the lines,
  the final \<open>I_HALT\<close>, the address of \<^verbatim>\<open>main\<close>, and the registers
  \<open>DISP\<close> and \<open>STK\<close>.
\<close>

definition assemble_tasm :: "(int \<Rightarrow> DWORD \<times> DWORD) \<Rightarrow> string \<Rightarrow> machine \<Rightarrow> fault + machine" where
  "assemble_tasm indet file m =
     (case assemble_lines indet (read_lines 255 [] file)
             \<lparr>mach = set_pos MAIN m, label_to_address_map = init_map, line_num = 0\<rparr> of
        Inl e \<Rightarrow> Inl e
      | Inr st \<Rightarrow>
          (case seq [emit_ins I_HALT, emit_data 0] (mach st) of
             Inl e \<Rightarrow> Inl e
           | Inr m1 \<Rightarrow>
               (case map_get (label_to_address_map st) ''main'' of
                  None \<Rightarrow> Inl MissingMain
                | Some main_addr \<Rightarrow>
                    Inr (wr_data STK STACK (wr_data DISP OUT (set_pos main_addr m1))))))"


section \<open>The virtual machine\<close>

subsection \<open>output\<close>

text \<open>
  The function \<^verbatim>\<open>output\<close> is \<open>output_fn\<close> here.
  \<^verbatim>\<open>putchar(c)\<close> and \<^verbatim>\<open>printf("%lu", val)\<close> append to standard output.
\<close>

definition putchar :: "BYTE \<Rightarrow> machine \<Rightarrow> machine" where
  "putchar c m = m\<lparr>stdout := stdout m @ [c]\<rparr>"

fun dec_digits :: "nat \<Rightarrow> BYTE list" where
  "dec_digits n =
     (if n < 10 then [of_nat (48 + n)] else dec_digits (n div 10) @ [of_nat (48 + n mod 10)])"

declare dec_digits.simps [simp del]

definition printf_lu :: "DWORD \<Rightarrow> machine \<Rightarrow> machine" where
  "printf_lu val m = m\<lparr>stdout := stdout m @ dec_digits (unat val)\<rparr>"

text \<open>
  The loop of \<^verbatim>\<open>output\<close>, from the current \<^verbatim>\<open>_ptr.pos\<close> on. The codes
  110, 114 and 92 are the characters n, r and backslash; 10 and 13 are newline and
  carriage return.
\<close>

function output_loop :: "machine \<Rightarrow> bool \<Rightarrow> machine" where
  "output_loop m is_escaped =
     (if pos (ptr m) < OUT_END \<and> pos (ptr m) < rd_data DISP m then
        (let val = rd_data (pos (ptr m)) m in
         if is_escaped then
           output_loop
             (advance (if val = 110 then putchar 10 m
                       else if val = 114 then putchar 13 m else m)) False
         else if BLOCK.dtype (tape m (pos (ptr m))) \<noteq> 0 then
           (if val = 92 then output_loop (advance m) True
            else output_loop (advance (putchar (ucast (val AND 0xFF)) m)) False)
         else output_loop (advance (printf_lu val m)) False)
      else m)"
  by pat_completeness auto

termination output_loop
  by (relation "measure (\<lambda>(m, e). unat OUT_END - unat (pos (ptr m)))")
     (auto simp: advance_def set_pos_def putchar_def printf_lu_def unat_word_ariths
        word_less_nat_alt)

declare output_loop.simps [simp del]

definition output_fn :: "machine \<Rightarrow> machine" where
  "output_fn m =
     (let final_addr = pos (ptr m) + 1;
          m1 = output_loop (set_pos OUT m) False
      in set_pos final_addr m1)"

subsection \<open>run\<close>

text \<open>
  One iteration of the loop of \<^verbatim>\<open>run\<close>. The \<^verbatim>\<open>default\<close> case of the
  switch ("Invalid instruction") has no branch: \<open>INSTRUCTION\<close> holds the enumerators
  only. A shift by the width of the type or more, a division by zero and an index
  outside the array (the stack slot of \<^verbatim>\<open>call\<close> and \<^verbatim>\<open>ret\<close>) are
  undefined in C.
\<close>

definition step :: "machine \<Rightarrow> fault + machine" where
  "step m =
    (if pos (ptr m) > END then Inl (OutOfBounds (pos (ptr m)))
     else
       let addr = rd_data (pos (ptr m)) m in
       if addr > END then Inl (OutOfBounds addr)
       else
         (case ins (tape m (pos (ptr m))) of
            I_NONE \<Rightarrow> Inr (advance m)
          | I_HALT \<Rightarrow> Inr (m\<lparr>is_halted := True\<rparr>)
          | I_JUMP \<Rightarrow> Inr (set_pos addr m)
          | I_CMP \<Rightarrow>
              (let m1 = wr_data ZF (if rd_data addr m = TAPE_PTR.data (ptr m) then 1 else 0) m;
                   m2 = wr_data CF (if rd_data addr m1 < TAPE_PTR.data (ptr m1) then 1 else 0) m1
               in Inr (advance m2))
          | I_JE \<Rightarrow>
              Inr (set_pos (if rd_data ZF m = 1 then addr else pos (ptr m) + 1) m)
          | I_JNE \<Rightarrow>
              Inr (set_pos (if rd_data ZF m = 0 then addr else pos (ptr m) + 1) m)
          | I_JG \<Rightarrow>
              Inr (set_pos (if rd_data ZF m = 0 \<and> rd_data CF m = 0 then addr
                            else pos (ptr m) + 1) m)
          | I_JGE \<Rightarrow>
              Inr (set_pos (if rd_data CF m = 0 then addr else pos (ptr m) + 1) m)
          | I_JL \<Rightarrow>
              Inr (set_pos (if rd_data CF m = 1 then addr else pos (ptr m) + 1) m)
          | I_JLE \<Rightarrow>
              Inr (set_pos (if rd_data ZF m = 1 \<or> rd_data CF m = 1 then addr
                            else pos (ptr m) + 1) m)
          | I_READ \<Rightarrow>
              Inr (advance
                (m\<lparr>ptr := (ptr m)\<lparr>TAPE_PTR.data := rd_data addr m,
                                    TAPE_PTR.dtype := BLOCK.dtype (tape m addr)\<rparr>\<rparr>))
          | I_WRITE \<Rightarrow>
              (let m1 = wr_data addr (TAPE_PTR.data (ptr m)) m;
                   m2 = wr_dtype addr (TAPE_PTR.dtype (ptr m1)) m1;
                   m3 = (if addr \<ge> rd_data DISP m2 \<and> addr \<le> OUT_END
                         then wr_data DISP (addr + 1) m2 else m2)
               in Inr (advance m3))
          | I_AND \<Rightarrow>
              Inr (advance (wr_data addr (rd_data addr m AND TAPE_PTR.data (ptr m)) m))
          | I_OR \<Rightarrow>
              Inr (advance (wr_data addr (rd_data addr m OR TAPE_PTR.data (ptr m)) m))
          | I_XOR \<Rightarrow>
              Inr (advance (wr_data addr (rd_data addr m XOR TAPE_PTR.data (ptr m)) m))
          | I_NOT \<Rightarrow>
              Inr (advance (wr_data addr (if rd_data addr m = 0 then 1 else 0) m))
          | I_LSHIFT \<Rightarrow>
              (if TAPE_PTR.data (ptr m) \<ge> 32 then Inl Undefined
               else Inr (advance
                 (wr_data addr (push_bit (unat (TAPE_PTR.data (ptr m))) (rd_data addr m)) m)))
          | I_RSHIFT \<Rightarrow>
              (if TAPE_PTR.data (ptr m) \<ge> 32 then Inl Undefined
               else Inr (advance
                 (wr_data addr (drop_bit (unat (TAPE_PTR.data (ptr m))) (rd_data addr m)) m)))
          | I_ADD \<Rightarrow>
              Inr (advance (wr_data addr (rd_data addr m + TAPE_PTR.data (ptr m)) m))
          | I_SUB \<Rightarrow>
              Inr (advance (wr_data addr (rd_data addr m - TAPE_PTR.data (ptr m)) m))
          | I_MUL \<Rightarrow>
              Inr (advance (wr_data addr (rd_data addr m * TAPE_PTR.data (ptr m)) m))
          | I_DIV \<Rightarrow>
              (if TAPE_PTR.data (ptr m) = 0 then Inl Undefined
               else Inr (advance (wr_data addr (rd_data addr m div TAPE_PTR.data (ptr m)) m)))
          | I_OUT \<Rightarrow> Inr (output_fn m)
          | I_CALL \<Rightarrow>
              (if rd_data STK m < STACK_END then Inl StackOverflow
               else if rd_data STK m > END then Inl Undefined
               else
                 let m1 = wr_data (rd_data STK m) (pos (ptr m) + 1) m;
                     m2 = wr_data STK (rd_data STK m1 - 1) m1
                 in Inr (set_pos addr m2))
          | I_RET \<Rightarrow>
              (let m1 = wr_data STK (rd_data STK m + 1) m in
               if rd_data STK m1 > END then Inl Undefined
               else Inr (set_pos (rd_data (rd_data STK m1) m1) m1))))"

text \<open>
  \<^verbatim>\<open>run\<close>: the loop may run forever, and then \<open>run\<close> is \<open>None\<close>.
  \<open>exec n\<close> is the state after at most \<open>n\<close> iterations.
\<close>

partial_function (option) run_loop :: "machine \<Rightarrow> (fault + machine) option" where
  "run_loop m =
     (if is_halted m then Some (Inr m)
      else case step m of Inl e \<Rightarrow> Some (Inl e) | Inr m' \<Rightarrow> run_loop m')"

definition run :: "machine \<Rightarrow> (fault + machine) option" where
  "run m = run_loop (m\<lparr>is_halted := False\<rparr>)"

fun exec :: "nat \<Rightarrow> machine \<Rightarrow> fault + machine" where
  "exec 0 m = Inr m"
| "exec (Suc n) m =
     (if is_halted m then Inr m
      else case step m of Inl e \<Rightarrow> Inl e | Inr m' \<Rightarrow> exec n m')"

subsection \<open>main\<close>

text \<open>\<^verbatim>\<open>main\<close>: assemble on the zeroed tape, then run.\<close>

definition tasm_main :: "(int \<Rightarrow> DWORD \<times> DWORD) \<Rightarrow> string \<Rightarrow> (fault + machine) option" where
  "tasm_main indet file =
     (case assemble_tasm indet file init_machine of
        Inl e \<Rightarrow> Some (Inl e)
      | Inr m \<Rightarrow> run m)"

section \<open>Example programs and machines\<close>

text \<open>
  The examples assemble with \<open>zero_indet\<close> for the locals without an initialiser,
  run a number of iterations of the loop, and look at a block of the tape or at the
  tape pointer.
\<close>

definition zero_indet :: "int \<Rightarrow> DWORD \<times> DWORD" where
  "zero_indet = (\<lambda>_. (0, 0))"

definition assemble_and_exec :: "nat \<Rightarrow> string \<Rightarrow> fault + machine" where
  "assemble_and_exec n file =
     (case assemble_tasm zero_indet file init_machine of
        Inl e \<Rightarrow> Inl e
      | Inr m \<Rightarrow> exec n m)"

definition cell_of :: "DWORD \<Rightarrow> fault + machine \<Rightarrow> BLOCK option" where
  "cell_of a r = (case r of Inl e \<Rightarrow> None | Inr m \<Rightarrow> Some (tape m a))"

definition ip_of :: "fault + machine \<Rightarrow> (DWORD \<times> bool) option" where
  "ip_of r = (case r of Inl e \<Rightarrow> None | Inr m \<Rightarrow> Some (pos (ptr m), is_halted m))"

definition stdout_of :: "fault + machine \<Rightarrow> BYTE list option" where
  "stdout_of r = (case r of Inl e \<Rightarrow> None | Inr m \<Rightarrow> Some (stdout m))"

definition newline :: string where
  "newline = [CHR 0x0A]"

text \<open>An indirect second operand: the trampoline of \<^verbatim>\<open>mov 0x5 [0x6]\<close>.\<close>

definition prog_deref :: string where
  "prog_deref =
     ''main:'' @ newline @
     ''put 0x6 0x7'' @ newline @
     ''mov 0x5 [0x6]'' @ newline"

text \<open>A jump to an address of the data region.\<close>

definition prog_jmp_low :: string where
  "prog_jmp_low =
     ''main:'' @ newline @
     ''jmp 0x5'' @ newline"

text \<open>A call with the register \<open>STK\<close> at 100000, the low bound of the stack.\<close>

definition prog_call_low :: string where
  "prog_call_low =
     ''main:'' @ newline @
     ''put 0x4 100000'' @ newline @
     ''call main'' @ newline"

text \<open>A compare whose first operand is the register \<open>ZF\<close>.\<close>

definition prog_cmp_ZF :: string where
  "prog_cmp_ZF =
     ''main:'' @ newline @
     ''put 0x1 7'' @ newline @
     ''put 0x5 3'' @ newline @
     ''cmp 0x1 0x5'' @ newline @
     ''jl main'' @ newline"

text \<open>
  The tape as \<^verbatim>\<open>assemble_tasm\<close> leaves it for a program of one primitive \<open>i\<close>
  with the operand \<open>a\<close>: the block at \<open>MAIN\<close>, the registers \<open>DISP\<close> and \<open>STK\<close>,
  and the pointer at \<open>MAIN\<close>.
\<close>

definition example_machine :: "INSTRUCTION \<Rightarrow> DWORD \<Rightarrow> machine" where
  "example_machine i a =
     wr_data MAIN a (wr_ins MAIN i (wr_data STK STACK (wr_data DISP OUT (set_pos MAIN init_machine))))"

text \<open>Two OUT at 201000 and 201001, with the number 7 in the first display block.\<close>

definition out_machine :: machine where
  "out_machine =
     wr_data DISP 101001 (wr_data OUT 7 (wr_ins 201001 I_OUT (example_machine I_OUT 0)))"

text \<open>
  An ADD at 201000 on block 5, which holds the type tag 1 and the number 2, with 3 in
  the scratch of the pointer.
\<close>

definition add_machine :: machine where
  "add_machine =
     (wr_dtype 5 1 (wr_data 5 2 (example_machine I_ADD 5)))
       \<lparr>ptr := \<lparr>pos = MAIN, data = 3, dtype = 0\<rparr>\<rparr>"

text \<open>
  The primitive that the specification pairs with each two-operand mnemonic: "the
  primitive whose opcode matches the mnemonic" (WRITE for \<^verbatim>\<open>mov\<close>).
\<close>

definition spec_two_operand_opcode :: "string \<Rightarrow> INSTRUCTION option" where
  "spec_two_operand_opcode =
     map_of [(''mov'', I_WRITE), (''cmp'', I_CMP), (''and'', I_AND), (''or'', I_OR),
             (''xor'', I_XOR), (''lsh'', I_LSHIFT), (''rsh'', I_RSHIFT), (''add'', I_ADD),
             (''sub'', I_SUB), (''mul'', I_MUL), (''div'', I_DIV)]"

text \<open>A \<^verbatim>\<open>sub\<close> and an \<^verbatim>\<open>add\<close> with direct operands, each before a \<^verbatim>\<open>hlt\<close>.\<close>

definition prog_sub :: string where
  "prog_sub =
     ''main:'' @ newline @
     ''sub 0x5 0x6'' @ newline @
     ''hlt'' @ newline"

definition prog_add :: string where
  "prog_add =
     ''main:'' @ newline @
     ''add 0x5 0x6'' @ newline @
     ''hlt'' @ newline"

text \<open>The numbers 2 and 3 in the blocks 5 and 6, and the emit pointer at \<open>MAIN\<close>.\<close>

definition cmp_machine :: machine where
  "cmp_machine = wr_data 6 3 (wr_data 5 2 (set_pos MAIN init_machine))"

text \<open>
  A \<^verbatim>\<open>put\<close> of the string \<^verbatim>\<open>"Hi"\<close> with a comment after it, the same
  line with nothing after the closing quote, and a string with \<^verbatim>\<open>//\<close> in it.
\<close>

definition prog_put_comment :: string where
  "prog_put_comment =
     ''main:'' @ newline @
     ''put 0x18a88 '' @ [CHR 0x22] @ ''Hi'' @ [CHR 0x22] @ '' // greet'' @ newline @
     ''out'' @ newline @
     ''hlt'' @ newline"

definition prog_put_plain :: string where
  "prog_put_plain =
     ''main:'' @ newline @
     ''put 0x18a88 '' @ [CHR 0x22] @ ''Hi'' @ [CHR 0x22] @ newline @
     ''out'' @ newline @
     ''hlt'' @ newline"

definition prog_put_slashes :: string where
  "prog_put_slashes =
     ''main:'' @ newline @
     ''put 0x18a88 '' @ [CHR 0x22] @ ''a//b'' @ [CHR 0x22] @ newline @
     ''out'' @ newline @
     ''hlt'' @ newline"

section \<open>Properties of the virtual machine\<close>

subsection \<open>What output leaves alone\<close>

lemma output_loop_stop:
  "\<not> (pos (ptr m) < OUT_END \<and> pos (ptr m) < rd_data DISP m) \<Longrightarrow> output_loop m e = m"
  by (subst output_loop.simps) (simp only: if_False simp_thms)

lemma output_loop_go:
  "pos (ptr m) < OUT_END \<and> pos (ptr m) < rd_data DISP m \<Longrightarrow>
   output_loop m e =
     (if e then
        output_loop
          (advance (if rd_data (pos (ptr m)) m = 110 then putchar 10 m
                    else if rd_data (pos (ptr m)) m = 114 then putchar 13 m else m)) False
      else if BLOCK.dtype (tape m (pos (ptr m))) \<noteq> 0 then
        (if rd_data (pos (ptr m)) m = 92 then output_loop (advance m) True
         else output_loop (advance (putchar (ucast (rd_data (pos (ptr m)) m AND 0xFF)) m)) False)
      else output_loop (advance (printf_lu (rd_data (pos (ptr m)) m) m)) False)"
  by (subst output_loop.simps) (simp only: if_True Let_def simp_thms)

lemma output_loop_keeps:
  assumes adv: "\<And>m. f (advance m) = f m"
    and pc: "\<And>c m. f (putchar c m) = f m"
    and pf: "\<And>v m. f (printf_lu v m) = f m"
  shows "f (output_loop m e) = f m"
proof (induction m e rule: output_loop.induct)
  case (1 m is_escaped)
  show ?case
  proof (cases "pos (ptr m) < OUT_END \<and> pos (ptr m) < rd_data DISP m")
    case False
    show ?thesis by (simp only: output_loop_stop [OF False])
  next
    case c: True
    note go = output_loop_go [OF c, of is_escaped]
    show ?thesis
    proof (cases is_escaped)
      case True
      have "output_loop m is_escaped =
            output_loop (advance (if rd_data (pos (ptr m)) m = 110 then putchar 10 m
                    else if rd_data (pos (ptr m)) m = 114 then putchar 13 m else m)) False"
        using go True by simp
      with 1(1) [OF c refl True] show ?thesis by (simp add: adv pc)
    next
      case ne: False
      show ?thesis
      proof (cases "BLOCK.dtype (tape m (pos (ptr m))) \<noteq> 0")
        case False
        have "output_loop m is_escaped =
              output_loop (advance (printf_lu (rd_data (pos (ptr m)) m) m)) False"
          using go ne False by simp
        with 1(4) [OF c refl ne False] show ?thesis by (simp add: adv pf)
      next
        case t: True
        show ?thesis
        proof (cases "rd_data (pos (ptr m)) m = 92")
          case True
          have "output_loop m is_escaped = output_loop (advance m) True"
            using go ne t True by simp
          with 1(2) [OF c refl ne t True] show ?thesis by (simp add: adv)
        next
          case False
          have "output_loop m is_escaped =
                output_loop (advance (putchar (ucast (rd_data (pos (ptr m)) m AND 0xFF)) m)) False"
            using go ne t False by simp
          with 1(3) [OF c refl ne t False] show ?thesis by (simp add: adv pc)
        qed
      qed
    qed
  qed
qed

lemma tape_output_fn: "tape (output_fn m) = tape m"
  by (simp add: output_fn_def Let_def set_pos_def
      output_loop_keeps [where f = tape] advance_def putchar_def printf_lu_def)

lemma is_halted_output_fn: "is_halted (output_fn m) = is_halted m"
  by (simp add: output_fn_def Let_def set_pos_def
      output_loop_keeps [where f = is_halted] advance_def putchar_def printf_lu_def)

lemma pos_output_fn: "pos (ptr (output_fn m)) = pos (ptr m) + 1"
  by (simp add: output_fn_def Let_def set_pos_def)

text \<open>
  The text that the loop of \<^verbatim>\<open>output\<close> appends depends on the tape and on the
  position only.
\<close>

lemma output_loop_text:
  "tape m2 = tape m \<Longrightarrow> pos (ptr m2) = pos (ptr m) \<Longrightarrow>
   \<exists>out. stdout (output_loop m e) = stdout m @ out \<and> stdout (output_loop m2 e) = stdout m2 @ out"
proof (induction m e arbitrary: m2 rule: output_loop.induct)
  case (1 m is_escaped)
  have rd: "rd_data a m2 = rd_data a m" for a
    using "1.prems" by (simp add: rd_data_def)
  show ?case
  proof (cases "pos (ptr m) < OUT_END \<and> pos (ptr m) < rd_data DISP m")
    case False
    then have "\<not> (pos (ptr m2) < OUT_END \<and> pos (ptr m2) < rd_data DISP m2)"
      using "1.prems" rd by simp
    from output_loop_stop [OF False] output_loop_stop [OF this] show ?thesis by simp
  next
    case c: True
    then have c2: "pos (ptr m2) < OUT_END \<and> pos (ptr m2) < rd_data DISP m2"
      using "1.prems" rd by simp
    note go = output_loop_go [OF c, of is_escaped]
    note go2 = output_loop_go [OF c2, of is_escaped]
    let ?v = "rd_data (pos (ptr m)) m"
    have v2: "rd_data (pos (ptr m2)) m2 = ?v"
      using "1.prems" rd by simp
    show ?thesis
    proof (cases is_escaped)
      case True
      let ?n = "\<lambda>m. advance (if ?v = 110 then putchar 10 m
                             else if ?v = 114 then putchar 13 m else m)"
      have a: "output_loop m is_escaped = output_loop (?n m) False"
        using go True by simp
      have b: "output_loop m2 is_escaped = output_loop (?n m2) False"
        using go2 True v2 by simp
      have "tape (?n m2) = tape (?n m)" "pos (ptr (?n m2)) = pos (ptr (?n m))"
        using "1.prems" by (simp_all add: advance_def set_pos_def putchar_def)
      from "1.IH"(1) [OF c refl True this] obtain out where
        "stdout (output_loop (?n m) False) = stdout (?n m) @ out"
        "stdout (output_loop (?n m2) False) = stdout (?n m2) @ out"
        by blast
      then show ?thesis
        unfolding a b by (simp add: advance_def set_pos_def putchar_def)
    next
      case ne: False
      show ?thesis
      proof (cases "BLOCK.dtype (tape m (pos (ptr m))) \<noteq> 0")
        case False
        let ?n = "\<lambda>m. advance (printf_lu ?v m)"
        have a: "output_loop m is_escaped = output_loop (?n m) False"
          using go ne False by simp
        have b: "output_loop m2 is_escaped = output_loop (?n m2) False"
          using go2 ne False v2 "1.prems" by simp
        have "tape (?n m2) = tape (?n m)" "pos (ptr (?n m2)) = pos (ptr (?n m))"
          using "1.prems" by (simp_all add: advance_def set_pos_def printf_lu_def)
        from "1.IH"(4) [OF c refl ne False this] obtain out where
          "stdout (output_loop (?n m) False) = stdout (?n m) @ out"
          "stdout (output_loop (?n m2) False) = stdout (?n m2) @ out"
          by blast
        then show ?thesis
          unfolding a b by (simp add: advance_def set_pos_def printf_lu_def)
      next
        case t: True
        show ?thesis
        proof (cases "?v = 92")
          case True
          have a: "output_loop m is_escaped = output_loop (advance m) True"
            using go ne t True by simp
          have b: "output_loop m2 is_escaped = output_loop (advance m2) True"
            using go2 ne t True v2 "1.prems" by simp
          have "tape (advance m2) = tape (advance m)"
            "pos (ptr (advance m2)) = pos (ptr (advance m))"
            using "1.prems" by (simp_all add: advance_def set_pos_def)
          from "1.IH"(2) [OF c refl ne t True this] obtain out where
            "stdout (output_loop (advance m) True) = stdout (advance m) @ out"
            "stdout (output_loop (advance m2) True) = stdout (advance m2) @ out"
            by blast
          then show ?thesis
            unfolding a b by (simp add: advance_def set_pos_def)
        next
          case False
          let ?n = "\<lambda>m. advance (putchar (ucast (?v AND 0xFF)) m)"
          have a: "output_loop m is_escaped = output_loop (?n m) False"
            using go ne t False by simp
          have b: "output_loop m2 is_escaped = output_loop (?n m2) False"
            using go2 ne t False v2 "1.prems" by simp
          have "tape (?n m2) = tape (?n m)" "pos (ptr (?n m2)) = pos (ptr (?n m))"
            using "1.prems" by (simp_all add: advance_def set_pos_def putchar_def)
          from "1.IH"(3) [OF c refl ne t False this] obtain out where
            "stdout (output_loop (?n m) False) = stdout (?n m) @ out"
            "stdout (output_loop (?n m2) False) = stdout (?n m2) @ out"
            by blast
          then show ?thesis
            unfolding a b by (simp add: advance_def set_pos_def putchar_def)
        qed
      qed
    qed
  qed
qed

lemma output_fn_text:
  assumes "tape m2 = tape m"
  shows "\<exists>out. stdout (output_fn m) = stdout m @ out \<and> stdout (output_fn m2) = stdout m2 @ out"
proof -
  have "tape (set_pos OUT m2) = tape (set_pos OUT m)"
    "pos (ptr (set_pos OUT m2)) = pos (ptr (set_pos OUT m))"
    using assms by (simp_all add: set_pos_def)
  from output_loop_text [OF this, of False] show ?thesis
    by (simp add: output_fn_def Let_def set_pos_def)
qed

subsection \<open>One iteration and many\<close>

lemmas step_defs = step_def rd_data_def wr_data_def wr_dtype_def advance_def set_pos_def

lemma step_OUT:
  "pos (ptr m) \<le> END \<Longrightarrow> ins (tape m (pos (ptr m))) = I_OUT \<Longrightarrow>
   rd_data (pos (ptr m)) m \<le> END \<Longrightarrow> step m = Inr (output_fn m)"
  by (auto simp: step_def Let_def)

lemma step_keeps_ins: "step m = Inr m' \<Longrightarrow> ins (tape m' a) = ins (tape m a)"
  by (cases "ins (tape m (pos (ptr m)))")
     (auto simp: step_defs Let_def tape_output_fn split: if_splits)

lemma exec_Suc_last:
  "exec (Suc n) m0 =
     (case exec n m0 of
        Inl e \<Rightarrow> Inl e
      | Inr m \<Rightarrow> if is_halted m then Inr m else step m)"
proof (induction n arbitrary: m0)
  case 0
  show ?case by (simp split: sum.splits)
next
  case (Suc n)
  show ?case
  proof (cases "is_halted m0")
    case True
    then show ?thesis by simp
  next
    case False
    show ?thesis
    proof (cases "step m0")
      case (Inl e)
      with False show ?thesis by simp
    next
      case (Inr m1)
      have "exec (Suc (Suc n)) m0 = exec (Suc n) m1"
        using False Inr by simp
      also have "\<dots> = (case exec n m1 of Inl e \<Rightarrow> Inl e
                        | Inr m \<Rightarrow> if is_halted m then Inr m else step m)"
        by (rule Suc.IH)
      also have "exec n m1 = exec (Suc n) m0"
        using False Inr by simp
      finally show ?thesis .
    qed
  qed
qed

text \<open>Unfolding \<open>exec\<close> at a numeral, for the examples.\<close>

lemma exec_numeral:
  "exec (numeral k) m =
     (if is_halted m then Inr m
      else case step m of Inl e \<Rightarrow> Inl e | Inr m' \<Rightarrow> exec (pred_numeral k) m')"
  by (simp add: numeral_eq_Suc)

subsection \<open>Addresses inside the tape\<close>

lemma unat_succ: "(x::DWORD) \<le> END \<Longrightarrow> unat (x + 1) = Suc (unat x)"
proof -
  assume "x \<le> END"
  then have "unat x \<le> 300999" by (simp add: word_le_nat_alt)
  then show ?thesis by (simp add: unat_word_ariths)
qed

lemma less_succ: "(x::DWORD) \<le> END \<Longrightarrow> x < x + 1"
  by (simp add: word_less_nat_alt unat_succ)

subsection \<open>Evaluating the examples\<close>

lemmas asm_defs =
  load_instruction_def load_deref_instructions_def when_set_def emit_ins_def emit_data_def
  emit_dtype_def next_pos_def wr_ins_def wr_data_def wr_dtype_def set_pos_def advance_def
  init_machine_def zero_block_def

lemmas parse_defs =
  assemble_tasm_def assemble_line_def c_str_def sscanf_line_def isspace_def cnth_def
  first_operand_def load_operands_def strtoul_def digit_val_def map_get_def map_insert_def
  hash_def init_map_def DWORD_of_char_def Let_def newline_def zero_indet_def

lemmas run_defs =
  assemble_and_exec_def cell_of_def ip_of_def exec_numeral step_def rd_data_def

section \<open>The claims about the virtual machine\<close>

subsection \<open>C1\<close>

text \<open>
  C1, as stated: no block of the code region (201000 to 300999) changes at run time, and
  the READ/WRITE pair of a trampoline never rewrites one. The code does otherwise, as
  designed: for \<^verbatim>\<open>mov 0x5 [0x6]\<close> the assembler emits the pair at 201003 and
  201004, and the WRITE at 201004 stores the value read from address 6 into the data of
  the block at 201005, which is in the code region. After five iterations that block
  holds 7 where the assembler had put 6.
\<close>

theorem deref_rewrites_code_cell:
  "cell_of 201005 (assemble_and_exec 0 prog_deref) = Some \<lparr>ins = I_READ, data = 6, dtype = 0\<rparr> \<and>
   cell_of 201005 (assemble_and_exec 5 prog_deref) = Some \<lparr>ins = I_READ, data = 7, dtype = 0\<rparr>"
  by (simp add: prog_deref_def run_defs parse_defs asm_defs cong: let_weak_cong)

text \<open>
  C1, amended: no primitive operation changes the opcode of any block, of the code region
  or elsewhere, at run time: in every state that the loop reaches, each block has the
  opcode it had when the run began. (Data and type tag of a block of the code region can
  change: the WRITE of a trampoline changes them.)
\<close>

theorem opcodes_never_change:
  assumes "exec n m = Inr m'"
  shows "ins (tape m' a) = ins (tape m a)"
  using assms
proof (induction n arbitrary: m)
  case 0
  then show ?case by simp
next
  case (Suc n)
  show ?case
  proof (cases "is_halted m")
    case True
    with Suc.prems show ?thesis by simp
  next
    case False
    with Suc.prems obtain m1 where s: "step m = Inr m1" and e: "exec n m1 = Inr m'"
      by (auto split: sum.splits)
    from Suc.IH [OF e] step_keeps_ins [OF s] show ?thesis by simp
  qed
qed

text \<open>A WRITE at \<open>MAIN\<close> whose destination is \<open>MAIN\<close> itself keeps its opcode.\<close>

theorem opcodes_never_change_witness:
  "\<exists>m'. exec 1 (example_machine I_WRITE MAIN) = Inr m' \<and>
        ins (tape m' MAIN) = I_WRITE \<and> BLOCK.data (tape m' MAIN) = 0"
proof -
  have "\<exists>m'. exec 1 (example_machine I_WRITE MAIN) = Inr m' \<and> BLOCK.data (tape m' MAIN) = 0"
    by (simp add: example_machine_def step_def rd_data_def asm_defs cong: let_weak_cong)
  then obtain m' where h: "exec 1 (example_machine I_WRITE MAIN) = Inr m'"
    and d: "BLOCK.data (tape m' MAIN) = 0"
    by blast
  have "ins (tape m' MAIN) = ins (tape (example_machine I_WRITE MAIN) MAIN)"
    by (rule opcodes_never_change [OF h])
  also have "\<dots> = I_WRITE"
    by (simp add: example_machine_def asm_defs)
  finally show ?thesis using h d by blast
qed

subsection \<open>C2\<close>

text \<open>
  C2, as stated: in every reachable state the instruction pointer is in the code region
  (201000 to 300999) or the machine has halted, and a step that would move it outside
  faults. The loop checks the pointer against the high bound \<open>END\<close> only:
  \<^verbatim>\<open>jmp 0x5\<close> moves it to 5, in the data region, and the next iteration runs the
  block there and goes on to 6.
\<close>

theorem jmp_below_code_region:
  "ip_of (assemble_and_exec 1 prog_jmp_low) = Some (5, False) \<and>
   ip_of (assemble_and_exec 2 prog_jmp_low) = Some (6, False)"
  by (simp add: prog_jmp_low_def run_defs parse_defs asm_defs cong: let_weak_cong)

text \<open>
  C2, amended: in every state that the loop reaches and that has not halted, the
  instruction pointer is at most 300999, the high bound of the code region and of the
  tape, or the next iteration raises the out-of-bounds fault and runs nothing. The low
  bound 201000 is not checked.
\<close>

theorem ip_within_tape_or_fault:
  assumes "exec n m0 = Inr m" and "\<not> is_halted m"
  shows "pos (ptr m) \<le> END \<or> exec (Suc n) m0 = Inl (OutOfBounds (pos (ptr m)))"
  using assms by (auto simp: exec_Suc_last step_def simp del: exec.simps)

text \<open>The pointer one past the tape: the next iteration faults.\<close>

theorem ip_within_tape_or_fault_witness:
  "exec 0 (set_pos 301000 init_machine) = Inr (set_pos 301000 init_machine) \<and>
   \<not> is_halted (set_pos 301000 init_machine) \<and>
   \<not> pos (ptr (set_pos 301000 init_machine)) \<le> END \<and>
   exec (Suc 0) (set_pos 301000 init_machine) = Inl (OutOfBounds 301000)"
proof -
  have h: "exec 0 (set_pos 301000 init_machine) = Inr (set_pos 301000 init_machine)"
    by simp
  have nh: "\<not> is_halted (set_pos 301000 init_machine)"
    by (simp add: set_pos_def init_machine_def)
  have p: "pos (ptr (set_pos 301000 init_machine)) = 301000"
    by (simp add: set_pos_def)
  from ip_within_tape_or_fault [OF h nh] show ?thesis
    unfolding p using h nh by simp
qed

subsection \<open>C4\<close>

text \<open>
  C4, as stated: CALL with \<open>STK\<close> at 100000, the low bound of the stack region, raises
  the stack-overflow fault. The test of the source is \<^verbatim>\<open>tape[_STK].data < _STACK_END\<close>:
  at 100000 the slot is free and the call uses it. The program stores 100000 in \<open>STK\<close>
  and calls \<^verbatim>\<open>main\<close>: the call returns no fault, stores the return address
  201004 at 100000, leaves 99999 in \<open>STK\<close> and jumps to 201000.
\<close>

theorem call_at_low_bound:
  "cell_of STK (assemble_and_exec 3 prog_call_low) = Some \<lparr>ins = I_NONE, data = 100000, dtype = 0\<rparr> \<and>
   cell_of 201003 (assemble_and_exec 3 prog_call_low) = Some \<lparr>ins = I_CALL, data = 201000, dtype = 0\<rparr> \<and>
   ip_of (assemble_and_exec 3 prog_call_low) = Some (201003, False) \<and>
   ip_of (assemble_and_exec 4 prog_call_low) = Some (201000, False) \<and>
   cell_of STK (assemble_and_exec 4 prog_call_low) = Some \<lparr>ins = I_NONE, data = 99999, dtype = 0\<rparr> \<and>
   cell_of 100000 (assemble_and_exec 4 prog_call_low) = Some \<lparr>ins = I_NONE, data = 201004, dtype = 0\<rparr>"
  by (simp add: prog_call_low_def run_defs parse_defs asm_defs cong: let_weak_cong)

text \<open>
  C4, amended: CALL with \<open>STK\<close> below 100000 raises the stack-overflow fault; with
  \<open>STK\<close> at 100000 or above (and inside the tape) it stores the address of the next
  instruction in the data of \<open>tape[STK]\<close>, decrements \<open>STK\<close> by one and sets the
  instruction pointer to the call target.
\<close>

theorem call_pushes_or_overflows:
  assumes "pos (ptr m) \<le> END"
    and "ins (tape m (pos (ptr m))) = I_CALL"
    and "rd_data (pos (ptr m)) m = addr" and "addr \<le> END"
  shows "(rd_data STK m < STACK_END \<longrightarrow> step m = Inl StackOverflow) \<and>
         (STACK_END \<le> rd_data STK m \<and> rd_data STK m \<le> END \<longrightarrow>
            step m = Inr (set_pos addr
                           (wr_data STK (rd_data STK m - 1)
                              (wr_data (rd_data STK m) (pos (ptr m) + 1) m))))"
proof -
  have ne: "STACK_END \<le> rd_data STK m \<Longrightarrow> rd_data STK m \<noteq> STK"
    by auto
  show ?thesis
    using assms ne
    by (auto simp: step_def Let_def rd_data_def wr_data_def)
qed

text \<open>The first call of a program, and a call after the stack has overflowed.\<close>

theorem call_pushes_or_overflows_witness:
  "step (example_machine I_CALL MAIN) =
     Inr (set_pos MAIN (wr_data STK 100998 (wr_data STACK 201001 (example_machine I_CALL MAIN)))) \<and>
   step (wr_data STK 99999 (example_machine I_CALL MAIN)) = Inl StackOverflow"
proof -
  let ?m = "example_machine I_CALL MAIN"
  let ?o = "wr_data STK 99999 ?m"
  have a: "pos (ptr ?m) \<le> END" "ins (tape ?m (pos (ptr ?m))) = I_CALL"
    "rd_data (pos (ptr ?m)) ?m = MAIN" "MAIN \<le> END"
    by (simp_all add: example_machine_def rd_data_def asm_defs)
  have b: "pos (ptr ?o) \<le> END" "ins (tape ?o (pos (ptr ?o))) = I_CALL"
    "rd_data (pos (ptr ?o)) ?o = MAIN"
    by (simp_all add: example_machine_def rd_data_def asm_defs)
  have s: "rd_data STK ?m = STACK" "pos (ptr ?m) = MAIN" "rd_data STK ?o = 99999"
    by (simp_all add: example_machine_def rd_data_def asm_defs)
  from call_pushes_or_overflows [OF a] call_pushes_or_overflows [OF b a(4)]
  show ?thesis
    unfolding s by simp
qed

subsection \<open>C6\<close>

text \<open>
  C6: a WRITE whose destination \<open>addr\<close> is in the display region (101000 to 200999)
  leaves \<open>DISP\<close> as it is when \<open>addr\<close> is below \<open>DISP\<close>, sets \<open>DISP\<close> to
  \<open>addr + 1\<close> when \<open>addr\<close> is at or above \<open>DISP\<close>, and in both cases \<open>DISP\<close> is
  above \<open>addr\<close> afterwards.
\<close>

theorem write_moves_DISP:
  assumes "pos (ptr m) \<le> END"
    and "ins (tape m (pos (ptr m))) = I_WRITE"
    and "rd_data (pos (ptr m)) m = addr"
    and "OUT \<le> addr" and "addr \<le> OUT_END"
  shows "\<exists>m'. step m = Inr m' \<and>
           (addr < rd_data DISP m \<longrightarrow> rd_data DISP m' = rd_data DISP m) \<and>
           (rd_data DISP m \<le> addr \<longrightarrow> rd_data DISP m' = addr + 1) \<and>
           addr < rd_data DISP m'"
proof -
  from assms(4) have ne: "addr \<noteq> DISP" by auto
  from assms(5) have le: "addr \<le> END" by (rule order_trans) simp
  from le have lt: "addr < addr + 1" by (rule less_succ)
  show ?thesis
    using assms(1-3) ne le lt assms(5)
    by (auto simp: step_defs Let_def)
qed

text \<open>
  The first write of a program to the first display block moves \<open>DISP\<close> from 101000 to
  101001; with \<open>DISP\<close> at 101005 the same write leaves it there.
\<close>

theorem write_moves_DISP_witness:
  "(\<exists>m'. step (example_machine I_WRITE OUT) = Inr m' \<and> rd_data DISP m' = 101001) \<and>
   (\<exists>m'. step (wr_data DISP 101005 (example_machine I_WRITE OUT)) = Inr m' \<and>
          rd_data DISP m' = 101005)"
proof -
  let ?m = "example_machine I_WRITE OUT"
  let ?o = "wr_data DISP 101005 ?m"
  have a: "pos (ptr ?m) \<le> END" "ins (tape ?m (pos (ptr ?m))) = I_WRITE"
    "rd_data (pos (ptr ?m)) ?m = OUT" "OUT \<le> OUT" "OUT \<le> OUT_END"
    by (simp_all add: example_machine_def rd_data_def asm_defs)
  have b: "pos (ptr ?o) \<le> END" "ins (tape ?o (pos (ptr ?o))) = I_WRITE"
    "rd_data (pos (ptr ?o)) ?o = OUT"
    by (simp_all add: example_machine_def rd_data_def asm_defs)
  have s: "rd_data DISP ?m = OUT" "rd_data DISP ?o = 101005"
    by (simp_all add: example_machine_def rd_data_def asm_defs)
  from write_moves_DISP [OF a] write_moves_DISP [OF b a(4,5)]
  show ?thesis
    unfolding s by auto
qed

subsection \<open>C8\<close>

text \<open>
  C8: OUT leaves the whole tape as it is, the display region and the register \<open>DISP\<close>
  included, so two OUT in a row, with no write between them, print the same text: the
  first appends \<open>out\<close> to standard output and the second appends \<open>out\<close> again.
\<close>

theorem out_twice_same_text:
  assumes "pos (ptr m) < END"
    and "ins (tape m (pos (ptr m))) = I_OUT" and "rd_data (pos (ptr m)) m \<le> END"
    and "ins (tape m (pos (ptr m) + 1)) = I_OUT" and "rd_data (pos (ptr m) + 1) m \<le> END"
  shows "\<exists>m1 m2 out. step m = Inr m1 \<and> step m1 = Inr m2 \<and>
           tape m1 = tape m \<and> tape m2 = tape m \<and>
           stdout m1 = stdout m @ out \<and> stdout m2 = stdout m1 @ out"
proof -
  let ?m1 = "output_fn m"
  let ?m2 = "output_fn ?m1"
  have le: "pos (ptr m) \<le> END" using assms(1) by simp
  have s1: "step m = Inr ?m1"
    using le assms(2,3) by (rule step_OUT)
  have t1: "tape ?m1 = tape m" by (rule tape_output_fn)
  have p1: "pos (ptr ?m1) = pos (ptr m) + 1" by (rule pos_output_fn)
  have le1: "pos (ptr ?m1) \<le> END"
    using assms(1) unfolding p1 by (rule inc_le)
  have s2: "step ?m1 = Inr ?m2"
    using le1 assms(4,5) by (intro step_OUT) (simp_all add: p1 t1 rd_data_def)
  have t2: "tape ?m2 = tape m" by (simp add: tape_output_fn)
  from output_fn_text [OF t1] obtain out where
    "stdout ?m1 = stdout m @ out" "stdout ?m2 = stdout ?m1 @ out"
    by blast
  with s1 s2 t1 t2 show ?thesis by blast
qed

text \<open>Two OUT at 201000 and 201001, with the number 7 in the first display block.\<close>

theorem out_twice_same_text_witness:
  "\<exists>m1 m2 out. step out_machine = Inr m1 \<and> step m1 = Inr m2 \<and>
     tape m1 = tape out_machine \<and> tape m2 = tape out_machine \<and>
     stdout m1 = stdout out_machine @ out \<and> stdout m2 = stdout m1 @ out"
proof -
  have "pos (ptr out_machine) < END"
    "ins (tape out_machine (pos (ptr out_machine))) = I_OUT"
    "rd_data (pos (ptr out_machine)) out_machine \<le> END"
    "ins (tape out_machine (pos (ptr out_machine) + 1)) = I_OUT"
    "rd_data (pos (ptr out_machine) + 1) out_machine \<le> END"
    by (simp_all add: out_machine_def example_machine_def rd_data_def asm_defs)
  then show ?thesis by (rule out_twice_same_text)
qed

subsection \<open>C9\<close>

text \<open>
  C9: an arithmetic or bitwise primitive (AND, OR, XOR, NOT, LSHIFT, RSHIFT, ADD, SUB,
  MUL, DIV) on the address \<open>addr\<close> changes the data of \<open>tape[addr]\<close> only: the opcode
  and the type tag of that block and every other block stay as they were. WRITE also
  stores the type tag of the scratch in its destination. (A step that divides by zero or
  shifts by 32 or more is undefined in C and returns no state.)
\<close>

theorem arith_changes_data_only:
  assumes "step m = Inr m'"
    and "rd_data (pos (ptr m)) m = addr"
  shows "(ins (tape m (pos (ptr m))) \<in>
            {I_AND, I_OR, I_XOR, I_NOT, I_LSHIFT, I_RSHIFT, I_ADD, I_SUB, I_MUL, I_DIV} \<longrightarrow>
          ins (tape m' addr) = ins (tape m addr) \<and>
          BLOCK.dtype (tape m' addr) = BLOCK.dtype (tape m addr) \<and>
          (\<forall>a. a \<noteq> addr \<longrightarrow> tape m' a = tape m a)) \<and>
         (ins (tape m (pos (ptr m))) = I_WRITE \<longrightarrow>
          BLOCK.dtype (tape m' addr) = TAPE_PTR.dtype (ptr m))"
  using assms
  by (cases "ins (tape m (pos (ptr m)))") (auto simp: step_defs Let_def split: if_splits)

text \<open>
  An ADD on block 5, which holds the character tag 1 and the number 2, with 3 in the
  scratch: the block holds 5 afterwards and keeps the tag 1.
\<close>

theorem arith_changes_data_only_witness:
  "\<exists>m'. step add_machine = Inr m' \<and>
     tape m' 5 = \<lparr>ins = I_NONE, data = 5, dtype = 1\<rparr> \<and>
     (\<forall>a. a \<noteq> 5 \<longrightarrow> tape m' a = tape add_machine a)"
proof -
  have i: "ins (tape add_machine (pos (ptr add_machine))) = I_ADD"
    and r: "rd_data (pos (ptr add_machine)) add_machine = 5"
    and c: "tape add_machine 5 = \<lparr>ins = I_NONE, data = 2, dtype = 1\<rparr>"
    by (simp_all add: add_machine_def example_machine_def rd_data_def asm_defs)
  have "\<exists>m'. step add_machine = Inr m' \<and> BLOCK.data (tape m' 5) = 5"
    by (simp add: add_machine_def example_machine_def step_def rd_data_def asm_defs
        cong: let_weak_cong)
  then obtain m' where s: "step add_machine = Inr m'" and d: "BLOCK.data (tape m' 5) = 5"
    by blast
  from arith_changes_data_only [OF s r] i
  have k: "ins (tape m' 5) = ins (tape add_machine 5)"
    "BLOCK.dtype (tape m' 5) = BLOCK.dtype (tape add_machine 5)"
    "\<forall>a. a \<noteq> 5 \<longrightarrow> tape m' a = tape add_machine a"
    by simp_all
  have "tape m' 5 = \<lparr>ins = I_NONE, data = 5, dtype = 1\<rparr>"
    using k(1,2) d c by (cases "tape m' 5") simp
  with s k(3) show ?thesis by blast
qed

subsection \<open>C10\<close>

text \<open>
  C10: the flags are the data of the blocks 1 and 2 of the tape, and the conditional
  jumps compare them with 0 and 1 exactly: JE goes to its target iff the data of block 1
  is 1, JNE iff it is 0; so with any other value in block 1 both JE and JNE go on to the
  next instruction.
\<close>

theorem je_jne_test_ZF:
  assumes "pos (ptr m) \<le> END"
    and "rd_data (pos (ptr m)) m = addr" and "addr \<le> END"
  shows "(ins (tape m (pos (ptr m))) = I_JE \<longrightarrow>
            step m = Inr (set_pos (if rd_data ZF m = 1 then addr else pos (ptr m) + 1) m)) \<and>
         (ins (tape m (pos (ptr m))) = I_JNE \<longrightarrow>
            step m = Inr (set_pos (if rd_data ZF m = 0 then addr else pos (ptr m) + 1) m)) \<and>
         (ins (tape m (pos (ptr m))) \<in> {I_JE, I_JNE} \<and> rd_data ZF m \<noteq> 0 \<and> rd_data ZF m \<noteq> 1 \<longrightarrow>
            step m = Inr (set_pos (pos (ptr m) + 1) m))"
  using assms by (auto simp: step_def Let_def)

text \<open>With 5 in block 1, a JE to 201007 and a JNE to 201007 both go on to 201001.\<close>

theorem je_jne_test_ZF_witness:
  "step (wr_data ZF 5 (example_machine I_JE 201007)) =
     Inr (set_pos 201001 (wr_data ZF 5 (example_machine I_JE 201007))) \<and>
   step (wr_data ZF 5 (example_machine I_JNE 201007)) =
     Inr (set_pos 201001 (wr_data ZF 5 (example_machine I_JNE 201007)))"
proof -
  let ?e = "wr_data ZF 5 (example_machine I_JE 201007)"
  let ?n = "wr_data ZF 5 (example_machine I_JNE 201007)"
  have e: "pos (ptr ?e) \<le> END" "rd_data (pos (ptr ?e)) ?e = 201007" "201007 \<le> END"
    and n: "pos (ptr ?n) \<le> END" "rd_data (pos (ptr ?n)) ?n = 201007"
    by (simp_all add: example_machine_def rd_data_def asm_defs)
  have v: "ins (tape ?e (pos (ptr ?e))) = I_JE" "ins (tape ?n (pos (ptr ?n))) = I_JNE"
    "rd_data ZF ?e = 5" "rd_data ZF ?n = 5" "pos (ptr ?e) = MAIN" "pos (ptr ?n) = MAIN"
    by (simp_all add: example_machine_def rd_data_def asm_defs)
  from je_jne_test_ZF [OF e] je_jne_test_ZF [OF n e(3)] v
  show ?thesis by simp
qed

section \<open>Properties of the assembler\<close>

subsection \<open>Addresses a few blocks on\<close>

lemma unat_plus_nat: "unat (p::DWORD) + n \<le> 301000 \<Longrightarrow> unat (p + of_nat n) = unat p + n"
proof -
  assume a: "unat p + n \<le> 301000"
  then have "n < 2 ^ 32" by simp
  then have "unat (of_nat n :: DWORD) = n" by (simp add: unat_of_nat)
  with a show ?thesis by (simp add: unat_word_ariths)
qed

lemma plus_nat_inj:
  "unat (p::DWORD) + j \<le> 301000 \<Longrightarrow> unat p + k \<le> 301000 \<Longrightarrow>
   (p + of_nat j = p + of_nat k) = (j = k)"
  by (metis unat_plus_nat add_left_cancel)

lemma plus_nat_le_END: "unat (p::DWORD) + n < 301000 \<Longrightarrow> p + of_nat n \<le> END"
proof -
  assume a: "unat p + n < 301000"
  then have "unat (p + of_nat n) = unat p + n" by (intro unat_plus_nat) simp
  with a show ?thesis by (simp add: word_le_nat_alt)
qed

subsection \<open>The expansion of put\<close>

lemma load_put:
  assumes "pos (ptr m) = p" and "unat p + 3 \<le> 301000"
  shows "\<exists>m1. load_instruction ''put'' a1 a2 dt False False m = Inr m1 \<and>
           pos (ptr m1) = p + of_nat 3 \<and>
           tape m1 = (tape m)
             (p + of_nat 0 := (tape m (p + of_nat 0))\<lparr>ins := I_NONE, BLOCK.data := a2, BLOCK.dtype := dt\<rparr>,
              p + of_nat 1 := (tape m (p + of_nat 1))\<lparr>ins := I_READ, BLOCK.data := p\<rparr>,
              p + of_nat 2 := (tape m (p + of_nat 2))\<lparr>ins := I_WRITE, BLOCK.data := a1\<rparr>)"
proof -
  have le: "p \<le> END" "p + 1 \<le> END" "p + 2 \<le> END"
    using plus_nat_le_END [of p 0] plus_nat_le_END [of p 1] plus_nat_le_END [of p 2] assms(2)
    by simp_all
  have ne: "p + 1 \<noteq> p" "p + 2 \<noteq> p" "p + 2 \<noteq> p + 1"
    using plus_nat_inj [of p 1 0] plus_nat_inj [of p 2 0] plus_nat_inj [of p 2 1] assms(2)
    by simp_all
  show ?thesis
    using assms(1) le ne
    by (simp add: load_instruction_def when_set_def emit_ins_def emit_data_def emit_dtype_def
        next_pos_def wr_ins_def wr_data_def wr_dtype_def set_pos_def advance_def
        add.commute [of 2 p])
qed

lemma string_loop_put:
  "pos (ptr m) = p \<Longrightarrow> unat p + 3 * length cs \<le> 301000 \<Longrightarrow>
   \<exists>m'. string_loop ''put'' cs addr False False m = Inr m' \<and>
     pos (ptr m') = p + of_nat (3 * length cs) \<and>
     (\<forall>i<length cs.
        tape m' (p + of_nat (3 * i)) =
          (tape m (p + of_nat (3 * i)))
            \<lparr>ins := I_NONE, BLOCK.data := DWORD_of_char (cs ! i), BLOCK.dtype := 1\<rparr> \<and>
        tape m' (p + of_nat (3 * i + 1)) =
          (tape m (p + of_nat (3 * i + 1)))\<lparr>ins := I_READ, BLOCK.data := p + of_nat (3 * i)\<rparr> \<and>
        tape m' (p + of_nat (3 * i + 2)) =
          (tape m (p + of_nat (3 * i + 2)))\<lparr>ins := I_WRITE, BLOCK.data := addr + of_nat i\<rparr>) \<and>
     (\<forall>q. unat q < unat p \<or> unat p + 3 * length cs \<le> unat q \<longrightarrow> tape m' q = tape m q)"
proof (induction cs arbitrary: m p addr)
  case Nil
  then show ?case by simp
next
  case (Cons c cs)
  let ?p3 = "p + of_nat 3"
  from Cons.prems have room: "unat p + 3 \<le> 301000" by simp
  from load_put [OF Cons.prems(1) room, of addr "DWORD_of_char c" 1]
  obtain m1 where l: "load_instruction ''put'' addr (DWORD_of_char c) 1 False False m = Inr m1"
    and p1: "pos (ptr m1) = ?p3"
    and t1: "tape m1 = (tape m)
             (p + of_nat 0 := (tape m (p + of_nat 0))
                \<lparr>ins := I_NONE, BLOCK.data := DWORD_of_char c, BLOCK.dtype := 1\<rparr>,
              p + of_nat 1 := (tape m (p + of_nat 1))\<lparr>ins := I_READ, BLOCK.data := p\<rparr>,
              p + of_nat 2 := (tape m (p + of_nat 2))\<lparr>ins := I_WRITE, BLOCK.data := addr\<rparr>)"
    by blast
  have u: "unat (p + of_nat k) = unat p + k" if "k \<le> 3 * length cs + 3" for k
    using that Cons.prems(2) by (intro unat_plus_nat) simp
  have u3: "unat ?p3 = unat p + 3" by (rule u) simp
  have other: "tape m1 q = tape m q" if "unat q < unat p \<or> unat p + 3 \<le> unat q" for q
  proof -
    have "q \<noteq> p + of_nat 0" "q \<noteq> p + of_nat 1" "q \<noteq> p + of_nat 2"
      using that u [of 0] u [of 1] u [of 2] by auto
    then show ?thesis by (simp add: t1)
  qed
  have d: "p + of_nat 1 \<noteq> p + of_nat 0" "p + of_nat 2 \<noteq> p + of_nat 0"
    "p + of_nat 2 \<noteq> p + of_nat 1"
    using plus_nat_inj [of p 1 0] plus_nat_inj [of p 2 0] plus_nat_inj [of p 2 1] room
    by simp_all
  have c0: "tape m1 (p + of_nat 0) =
      (tape m (p + of_nat 0))\<lparr>ins := I_NONE, BLOCK.data := DWORD_of_char c, BLOCK.dtype := 1\<rparr>"
    and c1: "tape m1 (p + of_nat 1) = (tape m (p + of_nat 1))\<lparr>ins := I_READ, BLOCK.data := p\<rparr>"
    and c2: "tape m1 (p + of_nat 2) = (tape m (p + of_nat 2))\<lparr>ins := I_WRITE, BLOCK.data := addr\<rparr>"
    using d by (simp_all add: t1)
  have room3: "unat ?p3 + 3 * length cs \<le> 301000"
    using Cons.prems(2) u3 by simp
  from Cons.IH [OF p1 room3, of "addr + 1"]
  obtain m' where r: "string_loop ''put'' cs (addr + 1) False False m1 = Inr m'"
    and pp: "pos (ptr m') = ?p3 + of_nat (3 * length cs)"
    and cells: "\<And>i. i < length cs \<Longrightarrow>
        tape m' (?p3 + of_nat (3 * i)) =
          (tape m1 (?p3 + of_nat (3 * i)))
            \<lparr>ins := I_NONE, BLOCK.data := DWORD_of_char (cs ! i), BLOCK.dtype := 1\<rparr> \<and>
        tape m' (?p3 + of_nat (3 * i + 1)) =
          (tape m1 (?p3 + of_nat (3 * i + 1)))\<lparr>ins := I_READ, BLOCK.data := ?p3 + of_nat (3 * i)\<rparr> \<and>
        tape m' (?p3 + of_nat (3 * i + 2)) =
          (tape m1 (?p3 + of_nat (3 * i + 2)))\<lparr>ins := I_WRITE, BLOCK.data := addr + 1 + of_nat i\<rparr>"
    and frame: "\<And>q. unat q < unat ?p3 \<or> unat ?p3 + 3 * length cs \<le> unat q \<Longrightarrow>
        tape m' q = tape m1 q"
    by blast
  have run: "string_loop ''put'' (c # cs) addr False False m = Inr m'"
    using l r by simp
  have ppos: "pos (ptr m') = p + of_nat (3 * length (c # cs))"
    using pp by simp
  have shift: "?p3 + of_nat k = p + of_nat (3 + k)" for k
    by simp
  have cell: "tape m' (p + of_nat (3 * i)) =
          (tape m (p + of_nat (3 * i)))
            \<lparr>ins := I_NONE, BLOCK.data := DWORD_of_char ((c # cs) ! i), BLOCK.dtype := 1\<rparr> \<and>
        tape m' (p + of_nat (3 * i + 1)) =
          (tape m (p + of_nat (3 * i + 1)))\<lparr>ins := I_READ, BLOCK.data := p + of_nat (3 * i)\<rparr> \<and>
        tape m' (p + of_nat (3 * i + 2)) =
          (tape m (p + of_nat (3 * i + 2)))\<lparr>ins := I_WRITE, BLOCK.data := addr + of_nat i\<rparr>"
    if "i < length (c # cs)" for i
  proof (cases i)
    case 0
    have "tape m' (p + of_nat k) = tape m1 (p + of_nat k)" if "k < 3" for k
      using that u [of k] u3 by (intro frame) simp
    from this [of 0] this [of 1] this [of 2] c0 c1 c2 show ?thesis
      using 0 by simp
  next
    case (Suc j)
    with that have j: "j < length cs" by simp
    have same: "tape m1 (?p3 + of_nat k) = tape m (?p3 + of_nat k)" if "k \<le> 3 * length cs" for k
      unfolding shift using that u [of "3 + k"] by (intro other) simp
    have e: "p + of_nat (3 * i) = ?p3 + of_nat (3 * j)"
      "p + of_nat (3 * i + 1) = ?p3 + of_nat (3 * j + 1)"
      "p + of_nat (3 * i + 2) = ?p3 + of_nat (3 * j + 2)"
      "addr + of_nat i = addr + 1 + of_nat j"
      using Suc by simp_all
    from cells [OF j] same [of "3 * j"] same [of "3 * j + 1"] same [of "3 * j + 2"] j
    show ?thesis
      unfolding e using Suc by simp
  qed
  have fr: "tape m' q = tape m q"
    if "unat q < unat p \<or> unat p + 3 * length (c # cs) \<le> unat q" for q
  proof -
    have "tape m' q = tape m1 q"
      using that u3 by (intro frame) auto
    also have "\<dots> = tape m q"
      using that by (intro other) auto
    finally show ?thesis .
  qed
  from run ppos cell fr show ?case by blast
qed

text \<open>
  The string operand of \<^verbatim>\<open>put\<close> as \<^verbatim>\<open>sscanf\<close> hands it over, a quote,
  the characters \<open>cs\<close> and a quote with nothing after it, and a direct first operand:
  one expansion of three blocks for each character, the \<open>i\<close>-th to \<open>addr + i\<close>.
\<close>

lemma put_string_operands:
  assumes "second = CHR 0x22 # cs @ [CHR 0x22]"
    and "pos (ptr m) = p" and "unat p + 3 * length cs \<le> 301000"
  shows "\<exists>m'. load_operands ''put'' addr False second a2_indet m = Inr m' \<and>
     pos (ptr m') = p + of_nat (3 * length cs) \<and>
     (\<forall>i<length cs.
        tape m' (p + of_nat (3 * i)) =
          (tape m (p + of_nat (3 * i)))
            \<lparr>ins := I_NONE, BLOCK.data := DWORD_of_char (cs ! i), BLOCK.dtype := 1\<rparr> \<and>
        tape m' (p + of_nat (3 * i + 1)) =
          (tape m (p + of_nat (3 * i + 1)))\<lparr>ins := I_READ, BLOCK.data := p + of_nat (3 * i)\<rparr> \<and>
        tape m' (p + of_nat (3 * i + 2)) =
          (tape m (p + of_nat (3 * i + 2)))\<lparr>ins := I_WRITE, BLOCK.data := addr + of_nat i\<rparr>) \<and>
     (\<forall>q. unat q < unat p \<or> unat p + 3 * length cs \<le> unat q \<longrightarrow> tape m' q = tape m q)"
proof -
  have "load_operands ''put'' addr False second a2_indet m =
        string_loop ''put'' cs addr False False m"
    using assms(1) by (simp add: load_operands_def cnth_def)
  with string_loop_put [OF assms(2,3), of addr] show ?thesis by simp
qed

text \<open>
  The same for the line itself, when the closing quote is the last character of the
  line and the line has no \<^verbatim>\<open>//\<close>.
\<close>

lemma not_space_put: "\<not> isspace (CHR ''p'')" "\<not> isspace (CHR ''u'')" "\<not> isspace (CHR ''t'')"
  "isspace (CHR '' '')" "\<not> isspace (CHR 0x22)"
  by (simp_all add: isspace_def)

lemma sscanf_put_line:
  assumes ne: "first \<noteq> []" and ns: "\<forall>c\<in>set first. \<not> isspace c" and lf: "length first < 100"
    and nn: "CHR 0x0A \<notin> set cs" and lc: "length cs < 198"
    and eol: "eol = [] \<or> eol = [CHR 0x0A]"
  shows "sscanf_line (''put '' @ first @ '' '' @ CHR 0x22 # cs @ CHR 0x22 # eol) =
     Inr (''put'', first, CHR 0x22 # cs @ [CHR 0x22])"
proof -
  let ?r = "CHR 0x22 # cs @ CHR 0x22 # eol"
  have d1: "dropWhile isspace (first @ CHR '' '' # ?r) = first @ CHR '' '' # ?r"
    using ne ns by (cases first) simp_all
  have t1: "takeWhile (\<lambda>c. \<not> isspace c) (first @ CHR '' '' # ?r) = first"
    using ns by (simp add: takeWhile_append2 not_space_put)
  have d2: "dropWhile (\<lambda>c. \<not> isspace c) (first @ CHR '' '' # ?r) = CHR '' '' # ?r"
    using ns by (simp add: dropWhile_append2 not_space_put)
  have "takeWhile (\<lambda>c. c \<noteq> CHR 0x0A) (cs @ CHR 0x22 # eol) =
        cs @ takeWhile (\<lambda>c. c \<noteq> CHR 0x0A) (CHR 0x22 # eol)"
    by (rule takeWhile_append2) (use nn in auto)
  then have t2: "takeWhile (\<lambda>c. c \<noteq> CHR 0x0A) (cs @ CHR 0x22 # eol) = cs @ [CHR 0x22]"
    using eol by auto
  show ?thesis
    using lf lc ne
    by (simp add: sscanf_line_def Let_def not_space_put d1 t1 d2 t2)
qed

lemma put_string_line:
  assumes line: "line = ''put '' @ first @ '' '' @ CHR 0x22 # cs @ CHR 0x22 # eol"
    and nc: "strip_comment line = line"
    and ne: "first \<noteq> []" and ns: "\<forall>c\<in>set first. \<not> isspace c" and lf: "length first < 100"
    and nn: "CHR 0x0A \<notin> set cs" and lc: "length cs < 198"
    and eol: "eol = [] \<or> eol = [CHR 0x0A]"
    and op: "first_operand (label_to_address_map st) (line_num st + 1) first
               (fst (indet (line_num st + 1))) = Inr (addr, False)"
    and p: "pos (ptr (mach st)) = p" and pe: "p \<le> END"
    and room: "unat p + 3 * length cs \<le> 301000"
  shows "\<exists>m'. assemble_line indet line st = Inr (st\<lparr>line_num := line_num st + 1, mach := m'\<rparr>) \<and>
     pos (ptr m') = p + of_nat (3 * length cs) \<and>
     (\<forall>i<length cs.
        tape m' (p + of_nat (3 * i)) =
          (tape (mach st) (p + of_nat (3 * i)))
            \<lparr>ins := I_NONE, BLOCK.data := DWORD_of_char (cs ! i), BLOCK.dtype := 1\<rparr> \<and>
        tape m' (p + of_nat (3 * i + 1)) =
          (tape (mach st) (p + of_nat (3 * i + 1)))\<lparr>ins := I_READ, BLOCK.data := p + of_nat (3 * i)\<rparr> \<and>
        tape m' (p + of_nat (3 * i + 2)) =
          (tape (mach st) (p + of_nat (3 * i + 2)))\<lparr>ins := I_WRITE, BLOCK.data := addr + of_nat i\<rparr>) \<and>
     (\<forall>q. unat q < unat p \<or> unat p + 3 * length cs \<le> unat q \<longrightarrow> tape m' q = tape (mach st) q)"
proof -
  let ?second = "CHR 0x22 # cs @ [CHR 0x22]"
  let ?a2 = "snd (indet (line_num st + 1))"
  have sc: "sscanf_line (strip_comment line) = Inr (''put'', first, ?second)"
    unfolding nc unfolding line using ne ns lf nn lc eol by (rule sscanf_put_line)
  have al: "assemble_line indet line st =
      (case load_operands ''put'' addr False ?second ?a2 (mach st) of
         Inl e \<Rightarrow> Inl e
       | Inr m' \<Rightarrow> Inr (st\<lparr>line_num := line_num st + 1, mach := m'\<rparr>))"
    using p leD [OF pe] op by (simp add: assemble_line_def Let_def sc cnth_def)
  from put_string_operands [OF refl p room, of addr ?a2]
  obtain m' where "load_operands ''put'' addr False ?second ?a2 (mach st) = Inr m'"
    and "pos (ptr m') = p + of_nat (3 * length cs)"
    and "\<forall>i<length cs.
        tape m' (p + of_nat (3 * i)) =
          (tape (mach st) (p + of_nat (3 * i)))
            \<lparr>ins := I_NONE, BLOCK.data := DWORD_of_char (cs ! i), BLOCK.dtype := 1\<rparr> \<and>
        tape m' (p + of_nat (3 * i + 1)) =
          (tape (mach st) (p + of_nat (3 * i + 1)))\<lparr>ins := I_READ, BLOCK.data := p + of_nat (3 * i)\<rparr> \<and>
        tape m' (p + of_nat (3 * i + 2)) =
          (tape (mach st) (p + of_nat (3 * i + 2)))\<lparr>ins := I_WRITE, BLOCK.data := addr + of_nat i\<rparr>"
    and "\<forall>q. unat q < unat p \<or> unat p + 3 * length cs \<le> unat q \<longrightarrow> tape m' q = tape (mach st) q"
    by blast
  then show ?thesis
    unfolding al by (intro exI [of _ m']) simp
qed

subsection \<open>The lowering of the two-operand mnemonics with direct operands\<close>

text \<open>
  Every two-operand mnemonic emits a READ of the second operand and its primitive on the
  first operand, and leaves the emit pointer after these two blocks; \<^verbatim>\<open>sub\<close>
  alone leaves it one block further.
\<close>

lemma two_operand_direct:
  assumes "spec_two_operand_opcode mn = Some i"
    and "pos (ptr m) = p" and "unat p + 2 \<le> 301000"
  shows "load_instruction mn a1 a2 dt False False m =
     Inr (set_pos (if mn = ''sub'' then p + 3 else p + 2)
            (m\<lparr>tape := (tape m)
                 (p := (tape m p)\<lparr>ins := I_READ, BLOCK.data := a2\<rparr>,
                  p + 1 := (tape m (p + 1))\<lparr>ins := i, BLOCK.data := a1\<rparr>)\<rparr>))"
proof -
  have le: "p \<le> END" "p + 1 \<le> END"
    using plus_nat_le_END [of p 0] plus_nat_le_END [of p 1] assms(3) by simp_all
  have ne: "p + 1 \<noteq> p"
    using plus_nat_inj [of p 1 0] assms(3) by simp
  from assms(1) have
    "mn = ''mov'' \<and> i = I_WRITE \<or> mn = ''cmp'' \<and> i = I_CMP \<or> mn = ''and'' \<and> i = I_AND \<or>
     mn = ''or'' \<and> i = I_OR \<or> mn = ''xor'' \<and> i = I_XOR \<or> mn = ''lsh'' \<and> i = I_LSHIFT \<or>
     mn = ''rsh'' \<and> i = I_RSHIFT \<or> mn = ''add'' \<and> i = I_ADD \<or> mn = ''sub'' \<and> i = I_SUB \<or>
     mn = ''mul'' \<and> i = I_MUL \<or> mn = ''div'' \<and> i = I_DIV"
    by (simp add: spec_two_operand_opcode_def split: if_splits)
  then show ?thesis
    using assms(2) le ne
    by (elim disjE conjE)
       (simp_all add: load_instruction_def when_set_def emit_ins_def emit_data_def
          next_pos_def wr_ins_def wr_data_def set_pos_def advance_def add.commute [of 2 p])
qed

subsection \<open>Compare and jump\<close>

lemma neq_by_unat: "unat (x::DWORD) \<noteq> unat y \<Longrightarrow> x \<noteq> y"
  by auto

lemma step_READ:
  assumes "pos (ptr m) \<le> END" and "ins (tape m (pos (ptr m))) = I_READ"
    and "rd_data (pos (ptr m)) m = addr" and "addr \<le> END"
  shows "step m = Inr (advance (m\<lparr>ptr := (ptr m)\<lparr>TAPE_PTR.data := rd_data addr m,
                                    TAPE_PTR.dtype := BLOCK.dtype (tape m addr)\<rparr>\<rparr>))"
  using assms by (auto simp: step_def Let_def)

lemma step_CMP:
  assumes "pos (ptr m) \<le> END" and "ins (tape m (pos (ptr m))) = I_CMP"
    and "rd_data (pos (ptr m)) m = addr" and "addr \<le> END" and "addr \<noteq> ZF"
  shows "step m =
     Inr (advance
       (wr_data CF (if rd_data addr m < TAPE_PTR.data (ptr m) then 1 else 0)
          (wr_data ZF (if rd_data addr m = TAPE_PTR.data (ptr m) then 1 else 0) m)))"
  using assms by (auto simp: step_def Let_def rd_data_def wr_data_def)

lemma step_JL:
  assumes "pos (ptr m) \<le> END" and "ins (tape m (pos (ptr m))) = I_JL"
    and "rd_data (pos (ptr m)) m = addr" and "addr \<le> END"
  shows "step m = Inr (set_pos (if rd_data CF m = 1 then addr else pos (ptr m) + 1) m)"
  using assms by (auto simp: step_def Let_def)

lemma load_cmp_jl:
  assumes "pos (ptr m) = p" and "unat p + 3 \<le> 301000"
  shows "seq [load_instruction ''cmp'' a b dt False False,
              load_instruction ''jl'' t a2 dt2 False d2] m =
     Inr (set_pos (p + 3)
            (m\<lparr>tape := (tape m)
                 (p := (tape m p)\<lparr>ins := I_READ, BLOCK.data := b\<rparr>,
                  p + 1 := (tape m (p + 1))\<lparr>ins := I_CMP, BLOCK.data := a\<rparr>,
                  p + 2 := (tape m (p + 2))\<lparr>ins := I_JL, BLOCK.data := t\<rparr>)\<rparr>))"
proof -
  have le: "p \<le> END" "p + 1 \<le> END" "p + 2 \<le> END"
    using plus_nat_le_END [of p 0] plus_nat_le_END [of p 1] plus_nat_le_END [of p 2] assms(2)
    by simp_all
  have ne: "p + 1 \<noteq> p" "p + 2 \<noteq> p" "p + 2 \<noteq> p + 1"
    using plus_nat_inj [of p 1 0] plus_nat_inj [of p 2 0] plus_nat_inj [of p 2 1] assms(2)
    by simp_all
  show ?thesis
    using assms(1) le ne
    by (simp add: load_instruction_def when_set_def emit_ins_def emit_data_def
        next_pos_def wr_ins_def wr_data_def set_pos_def advance_def add.commute [of 2 p])
qed

section \<open>The claims about the assembler\<close>

subsection \<open>C7\<close>

text \<open>
  C7: for \<^verbatim>\<open>put\<close> with a first operand that resolves to the address \<open>addr\<close>
  and a second operand that is a quoted string of \<open>k\<close> characters, the assembler emits
  \<open>k\<close> expansions of three blocks each, the \<open>i\<close>-th to \<open>addr + i\<close>, with the type
  tag 1 on every character block. The source does so when the closing quote is the last
  character of the line (\<open>put_string_line\<close>). It cuts the closing quote only when
  it is the last character of \<^verbatim>\<open>second\<close>, and its loop leaves out the last
  character of \<^verbatim>\<open>second\<close>, whatever it is. With a comment after the string,
  \<^verbatim>\<open>put 0x18a88 "Hi" // greet\<close>, the operand is the string and a blank: for
  the two characters the assembler emits three expansions, H to 101000, i to 101001 and
  the closing quote (34) to 101002, and the next instruction is at 201009. The same line
  with nothing after the closing quote has its next instruction at 201006. A string with
  \<^verbatim>\<open>//\<close> in it is cut as a comment: for \<^verbatim>\<open>"a//b"\<close> no expansion is
  emitted and the next instruction is at 201000.
\<close>

theorem put_string_with_comment:
  "cell_of 201000 (assemble_and_exec 0 prog_put_comment) = Some \<lparr>ins = I_NONE, data = 72, dtype = 1\<rparr> \<and>
   cell_of 201002 (assemble_and_exec 0 prog_put_comment) = Some \<lparr>ins = I_WRITE, data = 101000, dtype = 0\<rparr> \<and>
   cell_of 201003 (assemble_and_exec 0 prog_put_comment) = Some \<lparr>ins = I_NONE, data = 105, dtype = 1\<rparr> \<and>
   cell_of 201005 (assemble_and_exec 0 prog_put_comment) = Some \<lparr>ins = I_WRITE, data = 101001, dtype = 0\<rparr> \<and>
   cell_of 201006 (assemble_and_exec 0 prog_put_comment) = Some \<lparr>ins = I_NONE, data = 34, dtype = 1\<rparr> \<and>
   cell_of 201007 (assemble_and_exec 0 prog_put_comment) = Some \<lparr>ins = I_READ, data = 201006, dtype = 0\<rparr> \<and>
   cell_of 201008 (assemble_and_exec 0 prog_put_comment) = Some \<lparr>ins = I_WRITE, data = 101002, dtype = 0\<rparr> \<and>
   cell_of 201009 (assemble_and_exec 0 prog_put_comment) = Some \<lparr>ins = I_OUT, data = 0, dtype = 0\<rparr> \<and>
   cell_of 201006 (assemble_and_exec 0 prog_put_plain) = Some \<lparr>ins = I_OUT, data = 0, dtype = 0\<rparr> \<and>
   cell_of 201000 (assemble_and_exec 0 prog_put_slashes) = Some \<lparr>ins = I_OUT, data = 0, dtype = 0\<rparr>"
  by (simp add: prog_put_comment_def prog_put_plain_def prog_put_slashes_def run_defs parse_defs
      asm_defs cong: let_weak_cong)

text \<open>
  Run to the halt, the program with the comment prints \<^verbatim>\<open>Hi"\<close> (72, 105, 34);
  without the comment it prints \<^verbatim>\<open>Hi\<close>.
\<close>

lemma put_string_with_comment_prints:
  "stdout_of (assemble_and_exec 11 prog_put_comment) = Some [72, 105, 34] \<and>
   ip_of (assemble_and_exec 11 prog_put_comment) = Some (201010, True) \<and>
   stdout_of (assemble_and_exec 8 prog_put_plain) = Some [72, 105]"
  by (simp add: prog_put_comment_def prog_put_plain_def stdout_of_def run_defs parse_defs asm_defs
      output_fn_def output_loop.simps putchar_def printf_lu_def cong: let_weak_cong)

subsection \<open>C3\<close>

text \<open>
  C3: a two-operand mnemonic with direct operands emits exactly two blocks, a READ of the
  second operand and the matching primitive on the first, and the next instruction
  follows at once. The source does so for ten of the eleven mnemonics; the
  \<^verbatim>\<open>sub\<close> case has a second \<^verbatim>\<open>_ptr.pos++\<close>. For
  \<^verbatim>\<open>sub 0x5 0x6\<close> followed by \<^verbatim>\<open>hlt\<close> the READ and the SUB are at
  201000 and 201001, the block at 201002 is left as it was (\<open>I_NONE\<close>) and the HALT of
  \<^verbatim>\<open>hlt\<close> is at 201003; with \<^verbatim>\<open>add\<close> in the place of
  \<^verbatim>\<open>sub\<close> the HALT is at 201002.
\<close>

theorem sub_leaves_gap:
  "cell_of 201000 (assemble_and_exec 0 prog_sub) = Some \<lparr>ins = I_READ, data = 6, dtype = 0\<rparr> \<and>
   cell_of 201001 (assemble_and_exec 0 prog_sub) = Some \<lparr>ins = I_SUB, data = 5, dtype = 0\<rparr> \<and>
   cell_of 201002 (assemble_and_exec 0 prog_sub) = Some \<lparr>ins = I_NONE, data = 0, dtype = 0\<rparr> \<and>
   cell_of 201003 (assemble_and_exec 0 prog_sub) = Some \<lparr>ins = I_HALT, data = 0, dtype = 0\<rparr> \<and>
   cell_of 201002 (assemble_and_exec 0 prog_add) = Some \<lparr>ins = I_HALT, data = 0, dtype = 0\<rparr>"
  by (simp add: prog_sub_def prog_add_def run_defs parse_defs asm_defs cong: let_weak_cong)

subsection \<open>C5\<close>

text \<open>
  C5, as stated: for all data addresses \<open>a\<close> and \<open>b\<close>, after the lowering of
  \<^verbatim>\<open>cmp a b\<close> the register \<open>CF\<close> holds 1 iff the data at \<open>a\<close> is below the
  data at \<open>b\<close>, and a \<^verbatim>\<open>jl\<close> right after it branches iff so. The register
  \<open>ZF\<close> is the data address 1, and CMP stores \<open>ZF\<close> before it reads
  \<^verbatim>\<open>tape[addr]\<close> again for \<open>CF\<close>. With \<open>a = 1\<close>: block 1 holds 7 and
  block 5 holds 3 at the compare, 7 is not below 3, and yet \<open>CF\<close> is 1 afterwards
  (the 0 just stored in \<open>ZF\<close> is below 3) and \<^verbatim>\<open>jl main\<close> branches to 201000.
\<close>

theorem cmp_on_ZF:
  "cell_of ZF (assemble_and_exec 6 prog_cmp_ZF) = Some \<lparr>ins = I_NONE, data = 7, dtype = 0\<rparr> \<and>
   cell_of 5 (assemble_and_exec 6 prog_cmp_ZF) = Some \<lparr>ins = I_NONE, data = 3, dtype = 0\<rparr> \<and>
   cell_of CF (assemble_and_exec 8 prog_cmp_ZF) = Some \<lparr>ins = I_NONE, data = 1, dtype = 0\<rparr> \<and>
   ip_of (assemble_and_exec 8 prog_cmp_ZF) = Some (201008, False) \<and>
   ip_of (assemble_and_exec 9 prog_cmp_ZF) = Some (201000, False)"
  by (simp add: prog_cmp_ZF_def run_defs parse_defs asm_defs cong: let_weak_cong)

text \<open>
  C5, amended: for all data addresses \<open>a\<close> and \<open>b\<close> with \<open>a\<close> other than the
  register \<open>ZF\<close> (address 1), after the lowering of \<^verbatim>\<open>cmp a b\<close> has run,
  \<open>ZF\<close> holds 1 iff the data at \<open>a\<close> equals the data at \<open>b\<close> and \<open>CF\<close> holds
  1 iff the data at \<open>a\<close> is below the data at \<open>b\<close> as unsigned numbers (and 0
  otherwise), both as they were at the compare; a \<^verbatim>\<open>jl t\<close> right after it
  goes to \<open>t\<close> iff the data at \<open>a\<close> was below the data at \<open>b\<close>, and to the next
  instruction otherwise. The three blocks of the lowering are at \<open>p\<close>, in the code
  region.
\<close>

theorem cmp_then_jl:
  assumes lower: "seq [load_instruction ''cmp'' a b 0 False False,
                       load_instruction ''jl'' t 0 0 False False] m0 = Inr m1"
    and p: "pos (ptr m0) = p" and lo: "MAIN \<le> p" and hi: "p \<le> 300997"
    and a: "a \<le> MEM_END" and b: "b \<le> MEM_END" and nz: "a \<noteq> ZF" and t: "t \<le> END"
    and nh: "\<not> is_halted m0"
  shows "\<exists>m2 m3. exec 2 (set_pos p m1) = Inr m2 \<and> exec 3 (set_pos p m1) = Inr m3 \<and>
     rd_data ZF m2 = (if rd_data a m0 = rd_data b m0 then 1 else 0) \<and>
     rd_data CF m2 = (if rd_data a m0 < rd_data b m0 then 1 else 0) \<and>
     pos (ptr m3) = (if rd_data a m0 < rd_data b m0 then t else p + 3)"
proof -
  have up: "unat p \<le> 300997" and ul: "201000 \<le> unat p"
    using hi lo by (simp_all add: word_le_nat_alt)
  then have room: "unat p + 3 \<le> 301000" by simp
  have u: "unat (p + of_nat k) = unat p + k" if "k \<le> 3" for k
    using that room by (intro unat_plus_nat) simp
  have u12: "unat (p + 1) = unat p + 1" "unat (1 + p) = unat p + 1"
    "unat (p + 2) = unat p + 2" "unat (2 + p) = unat p + 2"
    using u [of 1] u [of 2] by (simp_all add: add.commute)
  have ua: "unat a \<le> 99999" and ub: "unat b \<le> 99999"
    using a b by (simp_all add: word_le_nat_alt)
  have le: "p \<le> END" "p + 1 \<le> END" "p + 2 \<le> END" "a \<le> END" "b \<le> END"
    using u [of 0] u [of 1] u [of 2] up ua ub by (simp_all add: word_le_nat_alt)
  have ne: "p + 1 \<noteq> p" "p + 2 \<noteq> p" "p + 2 \<noteq> p + 1"
    "a \<noteq> p" "a \<noteq> p + 1" "a \<noteq> p + 2" "b \<noteq> p" "b \<noteq> p + 1" "b \<noteq> p + 2"
    "p \<noteq> ZF" "p + 1 \<noteq> ZF" "p + 2 \<noteq> ZF" "p \<noteq> CF" "p + 1 \<noteq> CF" "p + 2 \<noteq> CF"
    using u12 ul ua ub by (auto intro!: neq_by_unat)
  from lower load_cmp_jl [OF p room, of a b 0 t 0 0 False]
  have m1: "m1 = set_pos (p + 3)
            (m0\<lparr>tape := (tape m0)
                 (p := (tape m0 p)\<lparr>ins := I_READ, BLOCK.data := b\<rparr>,
                  p + 1 := (tape m0 (p + 1))\<lparr>ins := I_CMP, BLOCK.data := a\<rparr>,
                  p + 2 := (tape m0 (p + 2))\<lparr>ins := I_JL, BLOCK.data := t\<rparr>)\<rparr>)"
    by simp
  let ?s0 = "set_pos p m1"
  let ?s1 = "advance (?s0\<lparr>ptr := (ptr ?s0)\<lparr>TAPE_PTR.data := rd_data b ?s0,
                                    TAPE_PTR.dtype := BLOCK.dtype (tape ?s0 b)\<rparr>\<rparr>)"
  let ?s2 = "advance
       (wr_data CF (if rd_data a ?s1 < TAPE_PTR.data (ptr ?s1) then 1 else 0)
          (wr_data ZF (if rd_data a ?s1 = TAPE_PTR.data (ptr ?s1) then 1 else 0) ?s1))"
  let ?s3 = "set_pos (if rd_data CF ?s2 = 1 then t else pos (ptr ?s2) + 1) ?s2"
  have st1: "step ?s0 = Inr ?s1"
    using le ne by (intro step_READ) (simp_all add: m1 set_pos_def rd_data_def)
  have st2: "step ?s1 = Inr ?s2"
    using le ne nz by (intro step_CMP) (simp_all add: m1 set_pos_def advance_def rd_data_def add.commute [of 2 p])
  have st3: "step ?s2 = Inr ?s3"
    using le ne t
    by (intro step_JL) (simp_all add: m1 set_pos_def advance_def rd_data_def wr_data_def add.commute [of 2 p])
  have h: "\<not> is_halted ?s0" "\<not> is_halted ?s1" "\<not> is_halted ?s2"
    using nh by (simp_all add: m1 set_pos_def advance_def wr_data_def)
  have e2: "exec 2 ?s0 = Inr ?s2"
    using st1 st2 h by (simp add: numeral_2_eq_2)
  have e3: "exec 3 ?s0 = Inr ?s3"
    using st1 st2 st3 h by (simp add: numeral_3_eq_3)
  have va: "rd_data a ?s1 = rd_data a m0" and vb: "TAPE_PTR.data (ptr ?s1) = rd_data b m0"
    using ne by (simp_all add: m1 set_pos_def advance_def rd_data_def add.commute [of 2 p])
  have z: "rd_data ZF ?s2 = (if rd_data a m0 = rd_data b m0 then 1 else 0)"
    unfolding va vb by (simp add: advance_def set_pos_def wr_data_def rd_data_def)
  have c: "rd_data CF ?s2 = (if rd_data a m0 < rd_data b m0 then 1 else 0)"
    unfolding va vb by (simp add: advance_def set_pos_def wr_data_def rd_data_def)
  have ps2: "pos (ptr ?s2) = p + 2"
    by (simp add: advance_def set_pos_def wr_data_def add.commute [of 2 p])
  have "pos (ptr ?s3) = (if rd_data a m0 < rd_data b m0 then t else p + 3)"
    unfolding c ps2 by (simp add: set_pos_def)
  with e2 e3 z c show ?thesis by blast
qed

text \<open>With 2 in block 5 and 3 in block 6, \<^verbatim>\<open>cmp 0x5 0x6\<close> and \<^verbatim>\<open>jl\<close> to 201010.\<close>

theorem cmp_then_jl_witness:
  "\<exists>m1 m2 m3.
     seq [load_instruction ''cmp'' 5 6 0 False False,
          load_instruction ''jl'' 201010 0 0 False False] cmp_machine = Inr m1 \<and>
     exec 2 (set_pos MAIN m1) = Inr m2 \<and> exec 3 (set_pos MAIN m1) = Inr m3 \<and>
     rd_data ZF m2 = 0 \<and> rd_data CF m2 = 1 \<and> pos (ptr m3) = 201010"
proof -
  have "\<exists>m1. seq [load_instruction ''cmp'' 5 6 0 False False,
                  load_instruction ''jl'' 201010 0 0 False False] cmp_machine = Inr m1"
    by (simp add: cmp_machine_def asm_defs)
  then obtain m1 where l: "seq [load_instruction ''cmp'' 5 6 0 False False,
                  load_instruction ''jl'' 201010 0 0 False False] cmp_machine = Inr m1"
    by blast
  have f: "pos (ptr cmp_machine) = MAIN" "MAIN \<le> MAIN" "MAIN \<le> 300997"
    "5 \<le> MEM_END" "6 \<le> MEM_END" "5 \<noteq> ZF" "201010 \<le> END" "\<not> is_halted cmp_machine"
    by (simp_all add: cmp_machine_def asm_defs)
  have v: "rd_data 5 cmp_machine = 2" "rd_data 6 cmp_machine = 3"
    by (simp_all add: cmp_machine_def rd_data_def asm_defs)
  from cmp_then_jl [OF l f] obtain m2 m3 where
    "exec 2 (set_pos MAIN m1) = Inr m2" "exec 3 (set_pos MAIN m1) = Inr m3"
    "rd_data ZF m2 = (if rd_data 5 cmp_machine = rd_data 6 cmp_machine then 1 else 0)"
    "rd_data CF m2 = (if rd_data 5 cmp_machine < rd_data 6 cmp_machine then 1 else 0)"
    "pos (ptr m3) = (if rd_data 5 cmp_machine < rd_data 6 cmp_machine then 201010 else MAIN + 3)"
    by blast
  with l show ?thesis
    unfolding v by auto
qed

end
